theory Spec2Isabelle
  imports Complex_Main "HOL-Library.AList"
begin

section \<open>Python errors\<close>

text \<open>
  The exceptions the modelled functions can raise. A function that can raise returns
  \<open>error + 'a\<close>, with \<open>Inl\<close> for the exception.
\<close>

datatype error = TypeError | KeyError | IndexError | ValueError | ZeroDivisionError

section \<open>general\_utils.py: gather\_dict\<close>

text \<open>
  A Python dict is a map. \<open>d.update(e)\<close> is \<open>d ++ e\<close>: the keys of \<open>e\<close> overwrite.

  The distributed runtime is ambient state of \<open>torch.distributed\<close>. It is passed
  explicitly: \<open>None\<close> when \<open>torch.distributed.is_initialized()\<close> is false, otherwise
  the process group as the calling process sees it: its own rank and the objects the
  ranks \<open>0, 1, ...\<close> hand to the collective (the entry at the caller's own rank is the
  object the caller passes, so the stored one is overridden there).
\<close>

record ('k, 'v) process_group =
  rank :: nat
  peers :: "('k \<rightharpoonup> 'v) list"

text \<open>
  \<open>torch.distributed.all_gather_object(object_list, obj)\<close> writes the object of rank
  \<open>i\<close> to \<open>object_list[i]\<close> for every rank of the group: an output list shorter than
  the group raises IndexError, the entries of a longer one beyond the group stay as
  they were.
\<close>

definition all_gather_object ::
  "('k \<rightharpoonup> 'v) list \<Rightarrow> ('k \<rightharpoonup> 'v) \<Rightarrow> ('k, 'v) process_group \<Rightarrow> error + ('k \<rightharpoonup> 'v) list" where
  "all_gather_object object_list obj g =
     (let gathered = (peers g)[rank g := obj] in
      if length object_list < length gathered then Inl IndexError
      else Inr (gathered @ drop (length gathered) object_list))"

text \<open>
  \<^verbatim>\<open>
  def gather_dict(dict_object, process_num=2):
      if torch.distributed.is_initialized():
          dicts_object = [{} for _ in range(process_num)]
          torch.distributed.barrier()
          torch.distributed.all_gather_object(dicts_object, dict_object)
          for i in range(process_num):
              dict_object.update(dicts_object[i])
      return dict_object
  \<close>
\<close>

definition gather_dict ::
  "('k, 'v) process_group option \<Rightarrow> ('k \<rightharpoonup> 'v) \<Rightarrow> nat \<Rightarrow> error + ('k \<rightharpoonup> 'v)" where
  "gather_dict runtime dict_object process_num =
     (case runtime of
        None \<Rightarrow> Inr dict_object
      | Some g \<Rightarrow>
          (let dicts_object = replicate process_num Map.empty in
           case all_gather_object dicts_object dict_object g of
             Inl e \<Rightarrow> Inl e
           | Inr gathered \<Rightarrow>
               Inr (foldl (\<lambda>d i. d ++ (gathered ! i)) dict_object [0..<process_num])))"

section \<open>general\_utils.py: load\_batch\_data\<close>

text \<open>
  A tensor is its payload and the device it lives on; \<open>v.to(device)\<close> gives the same
  payload on \<open>device\<close>. A batch is a dict from field names to tensors; the
  comprehension keeps the keys and their order, so an association list is mapped.
\<close>

datatype device = CPU | CUDA nat

record 'a tensor =
  payload :: 'a
  dev :: device

definition to_device :: "'a tensor \<Rightarrow> device \<Rightarrow> 'a tensor" where
  "to_device v d = v\<lparr>dev := d\<rparr>"

type_synonym 'a batch = "(string \<times> 'a tensor) list"

text \<open>
  \<^verbatim>\<open>
  def load_batch_data(batch_dict, device, multi_gpu=True):
      if torch.distributed.is_initialized() and multi_gpu:  # use multi-gpu
          return batch_dict
      return {k: v.to(device) for k, v in batch_dict.items()}
  \<close>
  \<open>is_initialized\<close> is the state of the distributed runtime.
\<close>

definition load_batch_data :: "bool \<Rightarrow> 'a batch \<Rightarrow> device \<Rightarrow> bool \<Rightarrow> 'a batch" where
  "load_batch_data is_initialized batch_dict device multi_gpu =
     (if is_initialized \<and> multi_gpu then batch_dict
      else map (\<lambda>(k, v). (k, to_device v device)) batch_dict)"

section \<open>general\_utils.py: news\_sampling\<close>

text \<open>
  \<open>random.sample(population, k)\<close> raises ValueError unless \<open>0 \<le> k \<le> len(population)\<close>
  and otherwise returns the elements at \<open>k\<close> positions drawn without replacement. The
  draws are the generator's; they are passed as \<open>rnd\<close>, the \<open>i\<close>-th draw reduced below
  the number of positions still in the pool, and the drawn position is refilled with
  the pool's last element, which then leaves the pool.
\<close>

fun sample_pool :: "'a list \<Rightarrow> nat \<Rightarrow> (nat \<Rightarrow> nat) \<Rightarrow> nat \<Rightarrow> 'a list" where
  "sample_pool pool 0 rnd i = []"
| "sample_pool [] (Suc k) rnd i = []"
| "sample_pool (x # xs) (Suc k) rnd i =
     (let pool = x # xs; j = rnd i mod length pool
      in pool ! j # sample_pool (butlast (pool[j := last pool])) k rnd (Suc i))"

definition random_sample :: "'a list \<Rightarrow> int \<Rightarrow> (nat \<Rightarrow> nat) \<Rightarrow> error + 'a list" where
  "random_sample population k rnd =
     (if 0 \<le> k \<and> k \<le> int (length population)
      then Inr (sample_pool population (nat k) rnd 0)
      else Inl ValueError)"

text \<open>
  \<^verbatim>\<open>
  def news_sampling(news, ratio):
      if ratio > len(news):
          return news + [0] * (ratio - len(news))
      else:
          return random.sample(news, ratio)
  \<close>
  \<open>ratio\<close> is a Python int, \<open>news\<close> a list.
\<close>

definition news_sampling :: "'a::zero list \<Rightarrow> int \<Rightarrow> (nat \<Rightarrow> nat) \<Rightarrow> error + 'a list" where
  "news_sampling news ratio rnd =
     (if ratio > int (length news)
      then Inr (news @ replicate (nat (ratio - int (length news))) 0)
      else random_sample news ratio rnd)"

section \<open>nc\_trainer.py: the trainer and run\_model\<close>

text \<open>
  Configuration values, with Python's truth value of each. \<open>config.get(key, default)\<close>
  gives the default only when the key is absent.
\<close>

datatype cfg = CNone | CBool bool | CInt int | CFloat real | CStr string | CList "string list"

fun truthy :: "cfg \<Rightarrow> bool" where
  "truthy CNone = False"
| "truthy (CBool b) = b"
| "truthy (CInt i) = (i \<noteq> 0)"
| "truthy (CFloat x) = (x \<noteq> 0)"
| "truthy (CStr s) = (s \<noteq> [])"
| "truthy (CList xs) = (xs \<noteq> [])"

definition config_get :: "(string \<rightharpoonup> cfg) \<Rightarrow> string \<Rightarrow> cfg \<Rightarrow> cfg" where
  "config_get config key dflt = (case config key of None \<Rightarrow> dflt | Some v \<Rightarrow> v)"

text \<open>
  The fields of the trainer that run\_model and the epoch loop read.
  \<^verbatim>\<open>
  self.entropy_constraint = config.get("entropy_constraint", False)
  self.calculate_entropy = config.get("calculate_entropy", self.entropy_constraint)
  self.alpha = config.get("alpha", 0.001)
  self.len_epoch = len(self.train_loader)
  \<close>
  \<open>alpha\<close> is kept as a value of the tensors' element type: \<open>alpha_value\<close> is what
  \<open>config.get("alpha", 0.001)\<close> gives.
\<close>

record 'a trainer =
  entropy_constraint :: cfg
  calculate_entropy :: cfg
  alpha :: 'a
  device :: device
  len_epoch :: nat

definition init_trainer :: "(string \<rightharpoonup> cfg) \<Rightarrow> 'a \<Rightarrow> device \<Rightarrow> nat \<Rightarrow> 'a trainer" where
  "init_trainer config alpha_value dv train_loader_len =
     (let ec = config_get config ''entropy_constraint'' (CBool False)
      in \<lparr>entropy_constraint = ec,
          calculate_entropy = config_get config ''calculate_entropy'' ec,
          alpha = alpha_value,
          device = dv,
          len_epoch = train_loader_len\<rparr>)"

text \<open>
  Tensors are objects: \<open>out_dict["loss"]\<close> and the local \<open>loss\<close> are the same object,
  and \<open>loss += ...\<close> on a tensor adds in place. So the values of \<open>out_dict\<close> are
  references into a heap of tensors, and the in-place addition updates the cell.
\<close>

record 'a heap =
  cells :: "nat \<rightharpoonup> 'a tensor"
  fresh :: nat

definition alloc :: "'a tensor \<Rightarrow> 'a heap \<Rightarrow> nat \<times> 'a heap" where
  "alloc t h = (fresh h, h\<lparr>cells := (cells h)(fresh h \<mapsto> t), fresh := Suc (fresh h)\<rparr>)"

definition smul :: "'a::times \<Rightarrow> 'a tensor \<Rightarrow> 'a tensor" where
  "smul a t = t\<lparr>payload := a * payload t\<rparr>"

definition iadd :: "nat \<Rightarrow> 'a::plus tensor \<Rightarrow> 'a heap \<Rightarrow> 'a heap" where
  "iadd r u h =
     (case cells h r of
        None \<Rightarrow> h
      | Some t \<Rightarrow> h\<lparr>cells := (cells h)(r \<mapsto> t\<lparr>payload := payload t + payload u\<rparr>)\<rparr>)"

text \<open>
  \<^verbatim>\<open>
  def run_model(self, batch_dict, model=None, multi_gpu=True):
      batch_dict = load_batch_data(batch_dict, self.device, multi_gpu)
      output = model(batch_dict) if model is not None else self.model(batch_dict)
      loss = self.criterion(output["predicted"], batch_dict["label"])
      out_dict = {"label": batch_dict["label"], "loss": loss, "predict": output["predicted"]}
      if self.entropy_constraint:
          loss += self.alpha * output["entropy"]
      if self.calculate_entropy:
          out_dict.update({"attention_weight": output["attention"], "entropy": output["entropy"]})
      return out_dict
  \<close>
  The forward pass \<open>model\<close> and the loss \<open>criterion\<close> are collaborators, taken as
  functions. The output of the forward pass is a dict; a missing key raises KeyError.
  The objects \<open>out_dict\<close> refers to are allocated in the order the code reaches them.
\<close>

definition run_model ::
  "('a::{plus,times}) trainer \<Rightarrow> bool \<Rightarrow> 'a batch \<Rightarrow> ('a batch \<Rightarrow> string \<rightharpoonup> 'a tensor) \<Rightarrow>
   ('a tensor \<Rightarrow> 'a tensor \<Rightarrow> 'a tensor) \<Rightarrow> bool \<Rightarrow> 'a heap \<Rightarrow>
   error + ((string \<rightharpoonup> nat) \<times> 'a heap)" where
  "run_model self is_initialized batch_dict0 model criterion multi_gpu h0 =
     (let batch_dict = load_batch_data is_initialized batch_dict0 (device self) multi_gpu;
          output = model batch_dict
      in case output ''predicted'' of
           None \<Rightarrow> Inl KeyError
         | Some predicted \<Rightarrow>
        (case map_of batch_dict ''label'' of
           None \<Rightarrow> Inl KeyError
         | Some label \<Rightarrow>
        (let (loss, h1) = alloc (criterion predicted label) h0;
             (label_ref, h2) = alloc label h1;
             (predict_ref, h3) = alloc predicted h2;
             out_dict = [''label'' \<mapsto> label_ref, ''loss'' \<mapsto> loss, ''predict'' \<mapsto> predict_ref]
         in case (if truthy (entropy_constraint self)
                  then (case output ''entropy'' of
                          None \<Rightarrow> Inl KeyError
                        | Some entropy \<Rightarrow> Inr (iadd loss (smul (alpha self) entropy) h3))
                  else Inr h3) of
              Inl e \<Rightarrow> Inl e
            | Inr h4 \<Rightarrow>
                if truthy (calculate_entropy self)
                then (case output ''attention'' of
                        None \<Rightarrow> Inl KeyError
                      | Some attention \<Rightarrow>
                     (case output ''entropy'' of
                        None \<Rightarrow> Inl KeyError
                      | Some entropy \<Rightarrow>
                     (let (attention_ref, h5) = alloc attention h4;
                          (entropy_ref, h6) = alloc entropy h5
                      in Inr (out_dict(''attention_weight'' \<mapsto> attention_ref,
                                       ''entropy'' \<mapsto> entropy_ref), h6))))
                else Inr (out_dict, h4))))"

section \<open>nc\_trainer.py: the batch loop of \_train\_epoch\<close>

text \<open>
  \<^verbatim>\<open>
  for batch_idx, batch_dict in bar:      # enumerate(self.train_loader)
      self.optimizer.zero_grad()
      out_dict = self.run_model(batch_dict, self.model)
      self.accelerator.backward(out_dict["loss"])
      self.optimizer.step()
      self.writer.set_step((epoch - 1) * self.len_epoch + batch_idx, "train")
      self.update_metrics(self.train_metrics, out_dict)
      ...
      if batch_idx == self.len_epoch:
          break
  \<close>
  The effects of the loop are recorded in a log: the calls of \<open>optimizer.zero_grad\<close>,
  of \<open>accelerator.backward\<close> and of \<open>optimizer.step\<close>, the steps given to the writer
  and the outputs handed to \<open>update_metrics\<close>. \<open>run\<close> is run\_model on the trainer's
  model; an exception of it ends the epoch. The loader is the list of batches its
  iterator yields, which need not have \<open>len_epoch\<close> elements.
\<close>

record 'o epoch_log =
  zero_grad_calls :: nat
  backward_calls :: nat
  optimizer_steps :: nat
  writer_steps :: "int list"
  tracked :: "'o list"

fun train_batches ::
  "('b \<Rightarrow> error + 'o) \<Rightarrow> int \<Rightarrow> nat \<Rightarrow> (nat \<times> 'b) list \<Rightarrow> 'o epoch_log \<Rightarrow> error + 'o epoch_log" where
  "train_batches run epoch n [] lg = Inr lg"
| "train_batches run epoch n ((batch_idx, batch_dict) # bar) lg =
     (let lg1 = lg\<lparr>zero_grad_calls := Suc (zero_grad_calls lg)\<rparr>
      in case run batch_dict of
           Inl e \<Rightarrow> Inl e
         | Inr out_dict \<Rightarrow>
             (let lg2 = lg1\<lparr>backward_calls := Suc (backward_calls lg1),
                            optimizer_steps := Suc (optimizer_steps lg1),
                            writer_steps := writer_steps lg1 @ [(epoch - 1) * int n + int batch_idx],
                            tracked := tracked lg1 @ [out_dict]\<rparr>
              in if batch_idx = n then Inr lg2 else train_batches run epoch n bar lg2))"

definition train_epoch ::
  "('b \<Rightarrow> error + 'o) \<Rightarrow> int \<Rightarrow> nat \<Rightarrow> 'b list \<Rightarrow> error + 'o epoch_log" where
  "train_epoch run epoch n train_loader =
     train_batches run epoch n (enumerate 0 train_loader)
       \<lparr>zero_grad_calls = 0, backward_calls = 0, optimizer_steps = 0,
        writer_steps = [], tracked = []\<rparr>"

section \<open>nc\_trainer.py: the variants of the topic distribution\<close>

text \<open>
  Errors are threaded through a sequence of steps with \<open>bind_err\<close>; \<open>traverse\<close> is a
  list comprehension whose element expression can raise.
\<close>

definition bind_err :: "error + 'a \<Rightarrow> ('a \<Rightarrow> error + 'b) \<Rightarrow> error + 'b" where
  "bind_err m f = (case m of Inl e \<Rightarrow> Inl e | Inr x \<Rightarrow> f x)"

fun traverse :: "('a \<Rightarrow> error + 'b) \<Rightarrow> 'a list \<Rightarrow> error + 'b list" where
  "traverse f [] = Inr []"
| "traverse f (x # xs) =
     bind_err (f x) (\<lambda>y. bind_err (traverse f xs) (\<lambda>ys. Inr (y # ys)))"

text \<open>
  Python's \<open>s.endswith(suffix)\<close> and \<open>s.replace(old, new)\<close>: every occurrence of
  \<open>old\<close>, found from the left and not overlapping, is replaced.
\<close>

definition endswith :: "string \<Rightarrow> string \<Rightarrow> bool" where
  "endswith s sfx = (length sfx \<le> length s \<and> drop (length s - length sfx) s = sfx)"

function str_replace :: "string \<Rightarrow> string \<Rightarrow> string \<Rightarrow> string" where
  "str_replace [] new s = new @ concat (map (\<lambda>c. c # new) s)"
| "str_replace (a # old) new [] = []"
| "str_replace (a # old) new (c # cs) =
     (if take (Suc (length old)) (c # cs) = a # old
      then new @ str_replace (a # old) new (drop (Suc (length old)) (c # cs))
      else c # str_replace (a # old) new cs)"
  by pat_completeness auto
termination
  by (relation "measure (\<lambda>(old, new, s). length s)") auto

text \<open>
  The topic distribution is a two-dimensional array \<open>[num_topics, vocab_size]\<close>: its
  second dimension and its rows. Arrays are objects: \<open>copy.deepcopy\<close> makes a new one
  and the slice assignment writes into the object it is given. So the arrays live in
  a store, addressed by references, and \<open>topic_dists\<close> maps a variant's name to a
  reference.
\<close>

record 'w ndarray =
  vocab_size :: nat
  weights :: "'w list list"

record 'w store =
  arrays :: "nat \<Rightarrow> 'w ndarray"
  next_id :: nat

definition initial_store :: "'w ndarray \<Rightarrow> 'w store" where
  "initial_store topic_dist =
     \<lparr>arrays = (\<lambda>_. \<lparr>vocab_size = 0, weights = []\<rparr>)(0 := topic_dist), next_id = 1\<rparr>"

definition deepcopy :: "nat \<Rightarrow> 'w store \<Rightarrow> nat \<times> 'w store" where
  "deepcopy r st =
     (next_id st, st\<lparr>arrays := (arrays st)(next_id st := arrays st r), next_id := Suc (next_id st)\<rparr>)"

text \<open>
  \<open>a[:, removed_index] = 0\<close>: an index beyond the second dimension raises IndexError
  (the indices are vocabulary indices, which are not negative); otherwise every row
  gets a zero at each of the indices.
\<close>

definition zero_columns :: "nat \<Rightarrow> nat list \<Rightarrow> ('w::zero) store \<Rightarrow> error + 'w store" where
  "zero_columns r removed_index st =
     (let a = arrays st r in
      if list_ex (\<lambda>i. vocab_size a \<le> i) removed_index then Inl IndexError
      else Inr (st\<lparr>arrays := (arrays st)
             (r := a\<lparr>weights := map (\<lambda>row. fold (\<lambda>i row. row[i := 0]) removed_index row)
                                   (weights a)\<rparr>)\<rparr>))"

text \<open>
  \<^verbatim>\<open>
  topic_dists = {"original": topic_dist}
  if post_word_dict_dir is not None:
      for path in os.scandir(post_word_dict_dir):
          if not path.name.endswith(".json"):
              continue
          post_word_dict = read_json(path)
          removed_index = [v for k, v in data_loader.word_dict.items() if k not in post_word_dict]
          topic_dist_copy = copy.deepcopy(topic_dist)  # copy original topical distribution
          topic_dist_copy[:, removed_index] = 0  # set removed terms to 0
          topic_dists[path.name.replace(".json", "")] = topic_dist_copy
  \<close>
  The directory is the list of its entries, in the order \<open>os.scandir\<close> yields them:
  each a file name and the keys of the JSON object \<open>read_json\<close> loads from the file.
  \<open>word_dict\<close> is the dict of the data loader, from words to vocabulary indices, and
  \<open>topic_dist\<close> the reference of the distribution.
\<close>

fun build_variants ::
  "(string \<times> nat) list \<Rightarrow> nat \<Rightarrow> (string \<times> string list) list \<Rightarrow>
   ('w::zero) store \<times> (string \<times> nat) list \<Rightarrow> error + ('w store \<times> (string \<times> nat) list)" where
  "build_variants word_dict topic_dist [] (st, topic_dists) = Inr (st, topic_dists)"
| "build_variants word_dict topic_dist ((name, post_word_dict) # entries) (st, topic_dists) =
     (if \<not> endswith name ''.json''
      then build_variants word_dict topic_dist entries (st, topic_dists)
      else
        (let removed_index = map snd (filter (\<lambda>(k, v). k \<notin> set post_word_dict) word_dict);
             (topic_dist_copy, st1) = deepcopy topic_dist st
         in case zero_columns topic_dist_copy removed_index st1 of
              Inl e \<Rightarrow> Inl e
            | Inr st2 \<Rightarrow>
                build_variants word_dict topic_dist entries
                  (st2, AList.update (str_replace ''.json'' [] name) topic_dist_copy topic_dists)))"

text \<open>
  \<open>topic_dists.items()\<close>, as the evaluation loop reads it: each variant's name with the
  array its reference denotes.
\<close>

definition resolve :: "'w store \<times> (string \<times> nat) list \<Rightarrow> (string \<times> 'w ndarray) list" where
  "resolve s = map (\<lambda>(key, r). (key, arrays (fst s) r)) (snd s)"

definition topic_variants ::
  "(string \<rightharpoonup> cfg) \<Rightarrow> (string \<times> nat) list \<Rightarrow> ('w::zero) ndarray \<Rightarrow>
   (string \<times> string list) list \<Rightarrow> error + (string \<times> 'w ndarray) list" where
  "topic_variants config word_dict topic_dist entries =
     (let s0 = (initial_store topic_dist, [(''original'', 0)])
      in if config_get config ''post_word_dict_dir'' CNone \<noteq> CNone
         then bind_err (build_variants word_dict 0 entries s0) (\<lambda>s. Inr (resolve s))
         else Inr (resolve s0))"

text \<open>
  The filtered distribution in the words of the specification: the weight of every
  vocabulary index whose word is not in the whitelist is zero, every other weight is
  the original's.
\<close>

definition spec_filtered ::
  "(string \<times> nat) list \<Rightarrow> string list \<Rightarrow> ('w::zero) ndarray \<Rightarrow> 'w ndarray" where
  "spec_filtered word_dict whitelist a =
     a\<lparr>weights := map (\<lambda>row. map (\<lambda>(i, x).
            if list_ex (\<lambda>(w, v). v = i \<and> w \<notin> set whitelist) word_dict then 0 else x)
          (enumerate 0 row)) (weights a)\<rparr>"

section \<open>nc\_trainer.py: the embedding similarity\<close>

text \<open>
  \<^verbatim>\<open>
  embeddings = model.embedding_layer.embedding.weight.cpu().detach().numpy()
  count = model.head_num * top_n * (top_n - 1) / 2
  topic_index = [[data_loader.word_dict[word] for word in topic] for topic in topic_list]
  w2v_sim = sum([np.sum(np.triu(cosine_similarity(embeddings[i]), 1)) for i in topic_index]) / count
  \<close>
  Scores are real numbers here: the rounding of floating-point arithmetic is not
  modelled. The cosine of two vectors is a parameter. \<open>cosine_similarity\<close> of
  scikit-learn gives the matrix of the cosines of all pairs of rows, and raises
  ValueError for an array with no row.
\<close>

definition lookup_word :: "(string \<times> nat) list \<Rightarrow> string \<Rightarrow> error + nat" where
  "lookup_word word_dict word =
     (case map_of word_dict word of None \<Rightarrow> Inl KeyError | Some v \<Rightarrow> Inr v)"

definition take_rows :: "'v list \<Rightarrow> nat list \<Rightarrow> error + 'v list" where
  "take_rows embeddings idx =
     traverse (\<lambda>j. if j < length embeddings then Inr (embeddings ! j) else Inl IndexError) idx"

definition cosine_similarity ::
  "('v \<Rightarrow> 'v \<Rightarrow> real) \<Rightarrow> 'v list \<Rightarrow> error + real list list" where
  "cosine_similarity cosine X =
     (if X = [] then Inl ValueError else Inr (map (\<lambda>x. map (cosine x) X) X))"

definition triu :: "real list list \<Rightarrow> nat \<Rightarrow> real list list" where
  "triu m k =
     map (\<lambda>(i, row). map (\<lambda>(j, x). if i + k \<le> j then x else 0) (enumerate 0 row))
       (enumerate 0 m)"

definition np_sum :: "real list list \<Rightarrow> real" where
  "np_sum m = sum_list (map sum_list m)"

text \<open>
  \<open>top_n\<close> is a configuration value; only a number can enter the arithmetic of
  \<open>count\<close>. A float divided by zero is infinite or not a number in numpy (no
  exception); Python's own \<open>0 / 0.0\<close>, the case of an empty list of topics, raises
  ZeroDivisionError.
\<close>

fun num_of :: "cfg \<Rightarrow> error + real" where
  "num_of (CInt i) = Inr (of_int i)"
| "num_of (CFloat x) = Inr x"
| "num_of (CBool b) = Inr (if b then 1 else 0)"
| "num_of CNone = Inl TypeError"
| "num_of (CStr s) = Inl TypeError"
| "num_of (CList xs) = Inl TypeError"

datatype np_float = Finite real | NonFinite

definition w2v_sim ::
  "('v \<Rightarrow> 'v \<Rightarrow> real) \<Rightarrow> 'v list \<Rightarrow> int \<Rightarrow> cfg \<Rightarrow> (string \<times> nat) list \<Rightarrow>
   string list list \<Rightarrow> error + np_float" where
  "w2v_sim cosine embeddings head_num top_n word_dict topic_list =
     bind_err (num_of top_n) (\<lambda>n.
       let count = of_int head_num * n * (n - 1) / 2 in
       bind_err (traverse (traverse (lookup_word word_dict)) topic_list) (\<lambda>topic_index.
       bind_err (traverse (\<lambda>i. bind_err (take_rows embeddings i) (\<lambda>X.
                   bind_err (cosine_similarity cosine X) (\<lambda>m. Inr (np_sum (triu m 1)))))
                 topic_index) (\<lambda>totals.
         if count = 0
         then (if totals = [] then Inl ZeroDivisionError else Inr NonFinite)
         else Inr (Finite (sum_list totals / count)))))"

text \<open>
  The embedding vector of a word of the dictionary, for stating what the score sums.
\<close>

definition word_vector :: "'v list \<Rightarrow> (string \<times> nat) list \<Rightarrow> string \<Rightarrow> 'v" where
  "word_vector embeddings word_dict word = embeddings ! the (map_of word_dict word)"

section \<open>nc\_trainer.py: topic\_evaluation\<close>

text \<open>
  \<open>x in container\<close>: a substring test on a string, membership on a list, TypeError on
  a value that is no container. \<open>for m in methods\<close> runs over the characters of a
  string and the elements of a list.
\<close>

fun is_substring :: "string \<Rightarrow> string \<Rightarrow> bool" where
  "is_substring p [] = (p = [])"
| "is_substring p (c # cs) = (take (length p) (c # cs) = p \<or> is_substring p cs)"

fun py_in :: "string \<Rightarrow> cfg \<Rightarrow> error + bool" where
  "py_in x (CStr s) = Inr (is_substring x s)"
| "py_in x (CList xs) = Inr (x \<in> set xs)"
| "py_in x CNone = Inl TypeError"
| "py_in x (CBool b) = Inl TypeError"
| "py_in x (CInt i) = Inl TypeError"
| "py_in x (CFloat r) = Inl TypeError"

fun iterate :: "cfg \<Rightarrow> error + string list" where
  "iterate (CStr s) = Inr (map (\<lambda>c. [c]) s)"
| "iterate (CList xs) = Inr xs"
| "iterate CNone = Inl TypeError"
| "iterate (CBool b) = Inl TypeError"
| "iterate (CInt i) = Inl TypeError"
| "iterate (CFloat r) = Inl TypeError"

text \<open>
  The collaborators of topic\_evaluation that are not part of these sources, as
  functions: the extraction of the topic words, the two coherence scorers on the
  reference corpus, the writer of the topic report (which returns the entries for the
  result), and numpy's rounding of a mean and of a float.
\<close>

record ('w, 's, 'r) collaborators =
  get_topic_list :: "'w ndarray \<Rightarrow> cfg \<Rightarrow> (nat \<rightharpoonup> string) \<Rightarrow> string list list"
  compute_npmi :: "int list list \<Rightarrow> cfg \<Rightarrow> 's"
  compute_coherence :: "string list list \<Rightarrow> string \<Rightarrow> cfg \<Rightarrow> 's"
  save_topic_info :: "string list list \<Rightarrow> (string \<times> 's) list \<Rightarrow> cfg \<Rightarrow> (string \<times> 'r) list"
  round_mean :: "'s \<Rightarrow> 'r"
  round4 :: "np_float \<Rightarrow> 'r"

definition dict_update :: "('k \<times> 'v) list \<Rightarrow> ('k \<times> 'v) list \<Rightarrow> ('k \<times> 'v) list" where
  "dict_update d other = fold (\<lambda>(k, v). AList.update k v) other d"

record ('s, 'r) eval_state =
  topic_scores :: "(string \<times> 's) list option"
  topic_result :: "(string \<times> 'r) list"

text \<open>
  The body of the loop over the variants.
  \<^verbatim>\<open>
  for key, dist in topic_dists.items():
      topic_list = get_topic_list(dist, top_n, reverse_dict)
      ...
      if "fast_eval" in topic_evaluation_method:
          ...
          topic_index = [[data_loader.word_dict[word] - 1 for word in topic] for topic in topic_list]
          topic_scores = {f"{key}_c_npmi": scorer.compute_npmi(topics=topic_index, n=top_n)}
      if "slow_eval" in topic_evaluation_method:
          ...
          topic_scores = {f"{key}_m": compute_coherence(topic_list, ref_texts, m, top_n) for m in methods}
      if ("slow_eval" in topic_evaluation_method or "fast_eval" in topic_evaluation_method) and topic_scores:
          if self.config.get("save_topic_info", False) and self.accelerator.is_main_process:
              sort_score = self.config.get("sort_score", True)
              topic_result.update(save_topic_info(topic_path, topic_list, topic_scores, sort_score))
          else:
              topic_result.update({m: np.round(np.mean(c), 4) for m, c in topic_scores.items()})
      if "w2v_sim" in topic_evaluation_method:
          ...
          topic_result.update({f"{key}_w2v_sim": np.round(w2v_sim, 4)})
  \<close>
  The files the loop writes do not enter the result and are left out. The dict
  comprehension of the slow evaluation has one key for all methods, so the last
  method's score stays.
\<close>

definition eval_variant ::
  "('w, 's, 'r) collaborators \<Rightarrow> (string \<rightharpoonup> cfg) \<Rightarrow> (string \<times> nat) list \<Rightarrow>
   ('v \<Rightarrow> 'v \<Rightarrow> real) \<Rightarrow> 'v list \<Rightarrow> int \<Rightarrow> bool \<Rightarrow>
   string \<times> 'w ndarray \<Rightarrow> ('s, 'r) eval_state \<Rightarrow> error + ('s, 'r) eval_state" where
  "eval_variant env config word_dict cosine embeddings head_num is_main_process kd st =
     (let key = fst kd; d = snd kd;
          topic_evaluation_method = config_get config ''topic_evaluation_method'' CNone;
          top_n = config_get config ''top_n'' (CInt 10);
          methods = config_get config ''coherence_method'' (CStr ''c_npmi'');
          save = (truthy (config_get config ''save_topic_info'' (CBool False)) \<and> is_main_process);
          reverse_dict = map_of (rev (map (\<lambda>(k, v). (v, k)) word_dict));
          topic_list = get_topic_list env d top_n reverse_dict
      in
      bind_err (py_in ''fast_eval'' topic_evaluation_method) (\<lambda>fast.
      bind_err (if fast
                then bind_err (traverse (traverse (lookup_word word_dict)) topic_list) (\<lambda>idx.
                       Inr (Some [(key @ ''_c_npmi'',
                                   compute_npmi env (map (map (\<lambda>v. int v - 1)) idx) top_n)]))
                else Inr (topic_scores st)) (\<lambda>scores1.
      bind_err (py_in ''slow_eval'' topic_evaluation_method) (\<lambda>slow.
      bind_err (if slow
                then bind_err (iterate methods) (\<lambda>ms.
                       Inr (Some (if ms = [] then []
                                  else [(key @ ''_m'', compute_coherence env topic_list (last ms) top_n)])))
                else Inr scores1) (\<lambda>scores2.
      let result1 =
            (if (slow \<or> fast) \<and> scores2 \<noteq> None \<and> scores2 \<noteq> Some []
             then (if save
                   then dict_update (topic_result st)
                          (save_topic_info env topic_list (case scores2 of None \<Rightarrow> [] | Some sc \<Rightarrow> sc)
                             (config_get config ''sort_score'' (CBool True)))
                   else dict_update (topic_result st)
                          (map (\<lambda>(m, c). (m, round_mean env c)) (case scores2 of None \<Rightarrow> [] | Some sc \<Rightarrow> sc)))
             else topic_result st)
      in
      bind_err (py_in ''w2v_sim'' topic_evaluation_method) (\<lambda>w2v.
        if w2v
        then bind_err (w2v_sim cosine embeddings head_num top_n word_dict topic_list) (\<lambda>x.
               Inr \<lparr>topic_scores = scores2,
                    topic_result = dict_update result1 [(key @ ''_w2v_sim'', round4 env x)]\<rparr>)
        else Inr \<lparr>topic_scores = scores2, topic_result = result1\<rparr>))))))"

fun eval_variants ::
  "('w, 's, 'r) collaborators \<Rightarrow> (string \<rightharpoonup> cfg) \<Rightarrow> (string \<times> nat) list \<Rightarrow>
   ('v \<Rightarrow> 'v \<Rightarrow> real) \<Rightarrow> 'v list \<Rightarrow> int \<Rightarrow> bool \<Rightarrow>
   (string \<times> 'w ndarray) list \<Rightarrow> ('s, 'r) eval_state \<Rightarrow> error + ('s, 'r) eval_state" where
  "eval_variants env config word_dict cosine embeddings head_num is_main_process [] st = Inr st"
| "eval_variants env config word_dict cosine embeddings head_num is_main_process (kd # kds) st =
     bind_err (eval_variant env config word_dict cosine embeddings head_num is_main_process kd st)
       (eval_variants env config word_dict cosine embeddings head_num is_main_process kds)"

text \<open>
  \<^verbatim>\<open>
  topic_result, topic_scores = {}, None
  for key, dist in topic_dists.items():
      ...
  if not len(topic_result):
      raise ValueError("No correct topic evaluation method is specified!")
  return topic_result
  \<close>
  \<open>topic_dist\<close> is the distribution \<open>get_topic_dist\<close> gives for the model,
  \<open>embeddings\<close> and \<open>head_num\<close> the embedding matrix and the number of heads of the
  model.
\<close>

definition topic_evaluation ::
  "('w::zero, 's, 'r) collaborators \<Rightarrow> (string \<rightharpoonup> cfg) \<Rightarrow> (string \<times> nat) list \<Rightarrow>
   'w ndarray \<Rightarrow> (string \<times> string list) list \<Rightarrow>
   ('v \<Rightarrow> 'v \<Rightarrow> real) \<Rightarrow> 'v list \<Rightarrow> int \<Rightarrow> bool \<Rightarrow> error + (string \<times> 'r) list" where
  "topic_evaluation env config word_dict topic_dist entries cosine embeddings head_num is_main_process =
     bind_err (topic_variants config word_dict topic_dist entries) (\<lambda>topic_dists.
     bind_err (eval_variants env config word_dict cosine embeddings head_num is_main_process
                 topic_dists \<lparr>topic_scores = None, topic_result = []\<rparr>) (\<lambda>st.
       if length (topic_result st) = 0 then Inl ValueError else Inr (topic_result st)))"

section \<open>Properties of gather\_dict\<close>

lemma foldl_update_lookup:
  "foldl (\<lambda>d i. d ++ (ps ! i)) d0 [0..<n] k =
     (if \<exists>i<n. k \<in> dom (ps ! i)
      then (ps ! (GREATEST i. i < n \<and> k \<in> dom (ps ! i))) k
      else d0 k)"
proof (induction n)
  case 0
  then show ?case by simp
next
  case (Suc n)
  show ?case
  proof (cases "k \<in> dom (ps ! n)")
    case True
    have "(GREATEST i. i < Suc n \<and> k \<in> dom (ps ! i)) = n"
      using True by (intro Greatest_equality) auto
    with True show ?thesis
      by (auto simp: map_add_dom_app_simps)
  next
    case False
    have eq: "(\<lambda>i. i < Suc n \<and> k \<in> dom (ps ! i)) = (\<lambda>i. i < n \<and> k \<in> dom (ps ! i))"
      using False by (auto simp: less_Suc_eq fun_eq_iff)
    have ex: "(\<exists>i<Suc n. k \<in> dom (ps ! i)) = (\<exists>i<n. k \<in> dom (ps ! i))"
      using False by (auto simp: less_Suc_eq)
    from False have "(foldl (\<lambda>d i. d ++ (ps ! i)) d0 [0..<Suc n]) k
        = (foldl (\<lambda>d i. d ++ (ps ! i)) d0 [0..<n]) k"
      by (simp add: map_add_dom_app_simps)
    then show ?thesis
      unfolding ex eq using Suc.IH by simp
  qed
qed

lemma gather_dict_initialized:
  assumes "rank g < length (peers g)" and "process_num = length (peers g)"
  shows "gather_dict (Some g) d process_num =
           Inr (foldl (\<lambda>m i. m ++ ((peers g)[rank g := d] ! i)) d [0..<process_num])"
  using assms by (simp add: gather_dict_def all_gather_object_def Let_def)

lemma gather_lookup_last:
  assumes "i < n" and "k \<in> dom (ps ! i)" and "\<forall>j. i < j \<and> j < n \<longrightarrow> k \<notin> dom (ps ! j)"
  shows "foldl (\<lambda>d i. d ++ (ps ! i)) d0 [0..<n] k = (ps ! i) k"
proof -
  have "(GREATEST j. j < n \<and> k \<in> dom (ps ! j)) = i"
  proof (rule Greatest_equality)
    show "i < n \<and> k \<in> dom (ps ! i)" using assms by simp
  next
    fix y assume "y < n \<and> k \<in> dom (ps ! y)"
    with assms(3) show "y \<le> i" by (meson not_le)
  qed
  moreover have "\<exists>i<n. k \<in> dom (ps ! i)" using assms by blast
  ultimately show ?thesis by (simp add: foldl_update_lookup)
qed

text \<open>
  C9: when the distributed runtime is not initialized, gather\_dict returns the mapping
  it was given, with the same keys and values, whatever the process number.
\<close>

theorem gather_dict_single_process_identity:
  "gather_dict None dict_object process_num = Inr dict_object"
  by (simp add: gather_dict_def)

text \<open>
  C3: in a group of \<open>process_num\<close> ranks, the mapping gather\_dict returns binds every
  key to the value of the highest rank whose mapping holds the key, and holds no other
  key; when the ranks' key sets are pairwise disjoint, its keys are the union of theirs
  and it agrees with every rank's mapping on that rank's keys.
\<close>

theorem gather_dict_last_writer_wins:
  assumes "rank g < length (peers g)" and "process_num = length (peers g)"
    and "ps = (peers g)[rank g := d]"
  shows "\<exists>m. gather_dict (Some g) d process_num = Inr m
           \<and> (\<forall>k i. i < process_num \<and> k \<in> dom (ps ! i)
                  \<and> (\<forall>j. i < j \<and> j < process_num \<longrightarrow> k \<notin> dom (ps ! j))
                \<longrightarrow> m k = (ps ! i) k)
           \<and> (\<forall>k. (\<forall>i<process_num. k \<notin> dom (ps ! i)) \<longrightarrow> m k = None)
           \<and> ((\<forall>i j. i < process_num \<and> j < process_num \<and> i \<noteq> j
                     \<longrightarrow> dom (ps ! i) \<inter> dom (ps ! j) = {})
                \<longrightarrow> dom m = (\<Union>i<process_num. dom (ps ! i))
                    \<and> (\<forall>i<process_num. ps ! i \<subseteq>\<^sub>m m))"
proof -
  let ?n = process_num
  let ?m = "foldl (\<lambda>m i. m ++ (ps ! i)) d [0..<?n]"
  have res: "gather_dict (Some g) d ?n = Inr ?m"
    using gather_dict_initialized[OF assms(1,2)] assms(3) by simp
  have own: "ps ! rank g = d" "rank g < ?n"
    using assms by simp_all
  have last: "?m k = (ps ! i) k"
    if "i < ?n" "k \<in> dom (ps ! i)" "\<forall>j. i < j \<and> j < ?n \<longrightarrow> k \<notin> dom (ps ! j)" for k i
    using that by (rule gather_lookup_last)
  have none: "?m k = None" if "\<forall>i<?n. k \<notin> dom (ps ! i)" for k
  proof -
    from that own have "d k = None" by (metis domIff)
    with that show ?thesis by (auto simp: foldl_update_lookup)
  qed
  have disj: "dom ?m = (\<Union>i<?n. dom (ps ! i)) \<and> (\<forall>i<?n. ps ! i \<subseteq>\<^sub>m ?m)"
    if dj: "\<forall>i j. i < ?n \<and> j < ?n \<and> i \<noteq> j \<longrightarrow> dom (ps ! i) \<inter> dom (ps ! j) = {}"
  proof -
    have sub: "ps ! i \<subseteq>\<^sub>m ?m" if "i < ?n" for i
    proof -
      have "?m k = (ps ! i) k" if "k \<in> dom (ps ! i)" for k
      proof (rule last[OF \<open>i < ?n\<close> that])
        show "\<forall>j. i < j \<and> j < ?n \<longrightarrow> k \<notin> dom (ps ! j)"
          using dj \<open>i < ?n\<close> that by (metis disjoint_iff less_irrefl)
      qed
      then show ?thesis by (simp add: map_le_def)
    qed
    have "dom ?m \<subseteq> (\<Union>i<?n. dom (ps ! i))"
    proof
      fix k assume "k \<in> dom ?m"
      then have "\<not> (\<forall>i<?n. k \<notin> dom (ps ! i))" using none by (metis domIff)
      then show "k \<in> (\<Union>i<?n. dom (ps ! i))" by auto
    qed
    moreover have "(\<Union>i<?n. dom (ps ! i)) \<subseteq> dom ?m"
      using sub by (auto dest!: map_le_implies_dom_le)
    ultimately show ?thesis using sub by blast
  qed
  show ?thesis
  proof (intro exI[of _ ?m] conjI allI impI)
    show "gather_dict (Some g) d ?n = Inr ?m" by (rule res)
  next
    fix k i
    assume "i < ?n \<and> k \<in> dom (ps ! i) \<and> (\<forall>j. i < j \<and> j < ?n \<longrightarrow> k \<notin> dom (ps ! j))"
    then show "?m k = (ps ! i) k" by (intro last) simp_all
  next
    fix k assume "\<forall>i<?n. k \<notin> dom (ps ! i)"
    then show "?m k = None" by (rule none)
  next
    assume "\<forall>i j. i < ?n \<and> j < ?n \<and> i \<noteq> j \<longrightarrow> dom (ps ! i) \<inter> dom (ps ! j) = {}"
    then show "dom ?m = (\<Union>i<?n. dom (ps ! i))" using disj by simp
  next
    fix i
    assume "\<forall>i j. i < ?n \<and> j < ?n \<and> i \<noteq> j \<longrightarrow> dom (ps ! i) \<inter> dom (ps ! j) = {}"
      and "i < ?n"
    then show "ps ! i \<subseteq>\<^sub>m ?m" using disj by simp
  qed
qed

text \<open>
  The witness: three ranks with the disjoint mappings \<open>{1: 10}\<close>, \<open>{2: 20}\<close> and
  \<open>{3: 30}\<close>, seen from rank 1.
\<close>

theorem gather_dict_last_writer_wins_witness:
  "rank \<lparr>rank = 1, peers = [[1::nat \<mapsto> 10::nat], Map.empty, [3 \<mapsto> 30]]\<rparr>
      < length (peers \<lparr>rank = 1, peers = [[1::nat \<mapsto> 10::nat], Map.empty, [3 \<mapsto> 30]]\<rparr>)
   \<and> (\<exists>m. gather_dict (Some \<lparr>rank = 1, peers = [[1::nat \<mapsto> 10::nat], Map.empty, [3 \<mapsto> 30]]\<rparr>)
              [2 \<mapsto> 20] 3 = Inr m
          \<and> m 1 = Some 10 \<and> m 2 = Some 20 \<and> m 3 = Some 30 \<and> m 4 = None
          \<and> dom m = {1, 2, 3})"
proof -
  let ?g = "\<lparr>rank = 1, peers = [[1::nat \<mapsto> 10::nat], Map.empty, [3 \<mapsto> 30]]\<rparr>"
  let ?d = "[2::nat \<mapsto> 20::nat]"
  let ?ps = "[[1::nat \<mapsto> 10::nat], [2 \<mapsto> 20], [3 \<mapsto> 30]]"
  have h1: "rank ?g < length (peers ?g)" by simp
  have h2: "(3::nat) = length (peers ?g)" by simp
  have h3: "?ps = (peers ?g)[rank ?g := ?d]" by simp
  have lt3: "i < 3 \<longleftrightarrow> i = 0 \<or> i = 1 \<or> i = 2" for i :: nat by auto
  from gather_dict_last_writer_wins[OF h1 h2 h3] obtain m where
    M: "gather_dict (Some ?g) ?d 3 = Inr m
           \<and> (\<forall>k i. i < 3 \<and> k \<in> dom (?ps ! i)
                  \<and> (\<forall>j. i < j \<and> j < 3 \<longrightarrow> k \<notin> dom (?ps ! j))
                \<longrightarrow> m k = (?ps ! i) k)
           \<and> (\<forall>k. (\<forall>i<3. k \<notin> dom (?ps ! i)) \<longrightarrow> m k = None)
           \<and> ((\<forall>i j. i < 3 \<and> j < 3 \<and> i \<noteq> j
                     \<longrightarrow> dom (?ps ! i) \<inter> dom (?ps ! j) = {})
                \<longrightarrow> dom m = (\<Union>i<3. dom (?ps ! i))
                    \<and> (\<forall>i<3. ?ps ! i \<subseteq>\<^sub>m m))" ..
  note res = M[THEN conjunct1]
  note last = M[THEN conjunct2, THEN conjunct1, rule_format]
  note none = M[THEN conjunct2, THEN conjunct2, THEN conjunct1, rule_format]
  note disj = M[THEN conjunct2, THEN conjunct2, THEN conjunct2, rule_format]
  have "(0::nat) < 3 \<and> (1::nat) \<in> dom (?ps ! 0) \<and> (\<forall>j. 0 < j \<and> j < 3 \<longrightarrow> 1 \<notin> dom (?ps ! j))"
    by (auto simp: lt3)
  from last[OF this] have m1: "m 1 = Some 10" by simp
  have "(1::nat) < 3 \<and> (2::nat) \<in> dom (?ps ! 1) \<and> (\<forall>j. 1 < j \<and> j < 3 \<longrightarrow> 2 \<notin> dom (?ps ! j))"
    by (auto simp: lt3)
  from last[OF this] have m2: "m 2 = Some 20" by simp
  have "(2::nat) < 3 \<and> (3::nat) \<in> dom (?ps ! 2) \<and> (\<forall>j. 2 < j \<and> j < 3 \<longrightarrow> 3 \<notin> dom (?ps ! j))"
    by (auto simp: lt3)
  from last[OF this] have m3: "m 3 = Some 30" by simp
  have "i < 3 \<Longrightarrow> (4::nat) \<notin> dom (?ps ! i)" for i
    by (auto simp: lt3)
  from none[OF this] have m4: "m 4 = None" .
  have dj: "\<forall>i j. i < (3::nat) \<and> j < 3 \<and> i \<noteq> j \<longrightarrow> dom (?ps ! i) \<inter> dom (?ps ! j) = {}"
    by (auto simp: lt3 split: if_splits)
  have U: "(\<Union>i<(3::nat). dom (?ps ! i)) = {1, 2, 3}"
    by (auto simp: lt3 lessThan_def split: if_splits)
  have dm: "dom m = {1, 2, 3}"
    using disj dj U by simp
  show ?thesis
    by (intro conjI exI[of _ m]) (fact h1 res m1 m2 m3 m4 dm)+
qed

section \<open>Properties of load\_batch\_data\<close>

text \<open>
  With \<open>multi_gpu\<close> true and the distributed runtime not initialized, the batch is
  moved all the same: the tensor that was on the CPU comes back on the device.
\<close>

theorem load_batch_data_multi_gpu_counterexample:
  "load_batch_data False [(''label'', \<lparr>payload = 0::int, dev = CPU\<rparr>)] (CUDA 0) True
     \<noteq> [(''label'', \<lparr>payload = 0::int, dev = CPU\<rparr>)]"
  by (simp add: load_batch_data_def to_device_def)

text \<open>
  C6: run\_model passes every batch through load\_batch\_data, which returns the batch
  unchanged when the distributed runtime is initialized and \<open>multi_gpu\<close> is true, and
  otherwise returns the same keys with the same payloads, every tensor on the device.
\<close>

theorem load_batch_data_transfer:
  "(is_initialized \<and> multi_gpu \<longrightarrow>
      load_batch_data is_initialized batch_dict d multi_gpu = batch_dict)
   \<and> (\<not> (is_initialized \<and> multi_gpu) \<longrightarrow>
        map fst (load_batch_data is_initialized batch_dict d multi_gpu) = map fst batch_dict
      \<and> map (payload \<circ> snd) (load_batch_data is_initialized batch_dict d multi_gpu)
          = map (payload \<circ> snd) batch_dict
      \<and> (\<forall>kv \<in> set (load_batch_data is_initialized batch_dict d multi_gpu). dev (snd kv) = d))"
  by (auto simp: load_batch_data_def to_device_def comp_def case_prod_unfold)

theorem load_batch_data_transfer_witness:
  "load_batch_data True [(''label'', \<lparr>payload = 0::int, dev = CPU\<rparr>)] (CUDA 0) True
     = [(''label'', \<lparr>payload = 0::int, dev = CPU\<rparr>)]
   \<and> map (dev \<circ> snd) (load_batch_data False [(''label'', \<lparr>payload = 0::int, dev = CPU\<rparr>)] (CUDA 0) True)
     = [CUDA 0]
   \<and> map (dev \<circ> snd) (load_batch_data True [(''label'', \<lparr>payload = 0::int, dev = CPU\<rparr>)] (CUDA 0) False)
     = [CUDA 0]"
  using load_batch_data_transfer[of True True "[(''label'', \<lparr>payload = 0::int, dev = CPU\<rparr>)]" "CUDA 0"]
    load_batch_data_transfer[of False True "[(''label'', \<lparr>payload = 0::int, dev = CPU\<rparr>)]" "CUDA 0"]
    load_batch_data_transfer[of True False "[(''label'', \<lparr>payload = 0::int, dev = CPU\<rparr>)]" "CUDA 0"]
  by (simp add: load_batch_data_def)

section \<open>Properties of news\_sampling\<close>

lemma length_sample_pool:
  "k \<le> length pool \<Longrightarrow> length (sample_pool pool k rnd i) = k"
proof (induction pool k rnd i rule: sample_pool.induct)
  case (3 x xs k rnd i)
  let ?pool = "x # xs"
  let ?j = "rnd i mod length ?pool"
  have "length (butlast (?pool[?j := last ?pool])) = length ?pool - 1"
    by (simp only: length_butlast length_list_update)
  with "3.prems" have "k \<le> length (butlast (?pool[?j := last ?pool]))"
    by simp
  from "3.IH"[OF refl refl this] show ?case
    by (simp add: Let_def del: butlast.simps last.simps list_update.simps)
qed simp_all

lemma set_butlast_update_last: "set (butlast (xs[j := last xs])) \<subseteq> set xs"
proof
  fix y assume "y \<in> set (butlast (xs[j := last xs]))"
  then have "y \<in> set (xs[j := last xs])" by (rule in_set_butlastD)
  then have "y \<in> insert (last xs) (set xs)" using set_update_subset_insert by fastforce
  moreover have "xs \<noteq> []" using \<open>y \<in> set (xs[j := last xs])\<close> by auto
  ultimately show "y \<in> set xs" by auto
qed

lemma set_sample_pool: "set (sample_pool pool k rnd i) \<subseteq> set pool"
proof (induction pool k rnd i rule: sample_pool.induct)
  case (3 x xs k rnd i)
  let ?pool = "x # xs"
  let ?j = "rnd i mod length ?pool"
  have "?pool ! ?j \<in> set ?pool" by (intro nth_mem) simp
  moreover have "set (sample_pool (butlast (?pool[?j := last ?pool])) k rnd (Suc i)) \<subseteq> set ?pool"
    using "3.IH"[OF refl refl] set_butlast_update_last[of ?pool ?j] by blast
  ultimately show ?case by (simp add: Let_def del: butlast.simps last.simps list_update.simps nth_Cons_0)
qed simp_all

text \<open>
  C10: for a positive \<open>ratio\<close>, news\_sampling returns a list of \<open>ratio\<close> elements:
  \<open>news\<close> followed by \<open>ratio - len(news)\<close> zeros when \<open>ratio\<close> exceeds the length of
  \<open>news\<close>, and otherwise a sample whose elements all come from \<open>news\<close>.
\<close>

theorem news_sampling_length:
  assumes "0 < ratio"
  shows "\<exists>ys. news_sampling news ratio rnd = Inr ys \<and> length ys = nat ratio
           \<and> (int (length news) < ratio \<longrightarrow>
                ys = news @ replicate (nat (ratio - int (length news))) 0)
           \<and> (ratio \<le> int (length news) \<longrightarrow> set ys \<subseteq> set news)"
proof (cases "int (length news) < ratio")
  case True
  then show ?thesis by (simp add: news_sampling_def)
next
  case False
  with assms have k: "nat ratio \<le> length news" by simp
  from False assms have "news_sampling news ratio rnd = Inr (sample_pool news (nat ratio) rnd 0)"
    by (simp add: news_sampling_def random_sample_def)
  with False show ?thesis
    by (simp add: length_sample_pool[OF k] set_sample_pool)
qed

theorem news_sampling_length_witness:
  "(0::int) < 5 \<and> news_sampling [7, 8, 9 :: int] 5 (\<lambda>i. i) = Inr [7, 8, 9, 0, 0]
   \<and> (\<exists>ys. news_sampling [7, 8, 9 :: int] 2 (\<lambda>i. 4 * i + 1) = Inr ys \<and> length ys = 2
         \<and> set ys \<subseteq> {7, 8, 9})"
  using news_sampling_length[of 5 "[7, 8, 9 :: int]" "\<lambda>i. i"]
    news_sampling_length[of 2 "[7, 8, 9 :: int]" "\<lambda>i. 4 * i + 1"]
  by (auto simp: numeral_2_eq_2)

section \<open>Properties of the batch loop\<close>

text \<open>
  When run\_model never raises, the loop that starts at index \<open>i \<le> len_epoch\<close> takes
  \<open>len_epoch + 1 - i\<close> optimizer steps, or as many as there are batches left: the test
  \<open>batch_idx == self.len_epoch\<close> comes after the step of the batch with that index.
\<close>

lemma train_batches_steps:
  assumes "\<forall>b. \<exists>out. run b = Inr out" and "i \<le> n"
  shows "\<exists>lg'. train_batches run epoch n (enumerate i bs) lg = Inr lg'
            \<and> optimizer_steps lg' = optimizer_steps lg + min (length bs) (Suc n - i)"
  using assms(2)
proof (induction bs arbitrary: i lg)
  case Nil
  then show ?case by simp
next
  case (Cons b bs)
  from assms(1) obtain out where out: "run b = Inr out" by blast
  show ?case
  proof (cases "i = n")
    case True
    with out show ?thesis by (simp add: Let_def)
  next
    case False
    with Cons.prems have le: "Suc i \<le> n" by simp
    define lg2 where "lg2 = lg\<lparr>zero_grad_calls := Suc (zero_grad_calls lg),
                     backward_calls := Suc (backward_calls lg),
                     optimizer_steps := Suc (optimizer_steps lg),
                     writer_steps := writer_steps lg @ [(epoch - 1) * int n + int i],
                     tracked := tracked lg @ [out]\<rparr>"
    from Cons.IH[OF le, of lg2] obtain lg' where
      lg': "train_batches run epoch n (enumerate (Suc i) bs) lg2 = Inr lg'"
        "optimizer_steps lg' = optimizer_steps lg2 + min (length bs) (Suc n - Suc i)"
      by blast
    have "train_batches run epoch n (enumerate i (b # bs)) lg = Inr lg'"
      using out False lg'(1) by (simp add: Let_def lg2_def)
    moreover have "optimizer_steps lg' = optimizer_steps lg + min (length (b # bs)) (Suc n - i)"
      using lg'(2) le by (simp add: lg2_def Suc_diff_le)
    ultimately show ?thesis by blast
  qed
qed

text \<open>
  C1: the cutoff of the batch loop does not bound the optimizer steps of an epoch by
  \<open>len_epoch\<close>. With \<open>len_epoch = 2\<close> and a loader that yields four batches the epoch
  takes three optimizer steps, one more than \<open>len_epoch\<close>.
\<close>

theorem train_epoch_extra_step:
  "\<exists>lg. train_epoch Inr 1 2 [10, 20, 30, 40 :: nat] = Inr lg \<and> optimizer_steps lg = 3"
  by (simp add: train_epoch_def enumerate_eq_zip upt_rec Let_def)

section \<open>Properties of run\_model\<close>

text \<open>
  C2: in the output run\_model returns, the tensor under \<open>"loss"\<close> is the criterion's
  loss with \<open>alpha * entropy\<close> added when entropy\_constraint is set, and the
  criterion's loss itself when it is not: the addition is in place, on the object the
  output already refers to.
\<close>

theorem run_model_returned_loss:
  assumes "run_model self is_initialized batch_dict0 model criterion multi_gpu h0 = Inr (out_dict, h)"
    and "batch_dict = load_batch_data is_initialized batch_dict0 (device self) multi_gpu"
    and "output = model batch_dict"
  shows "\<exists>r predicted label.
           out_dict ''loss'' = Some r
         \<and> output ''predicted'' = Some predicted
         \<and> map_of batch_dict ''label'' = Some label
         \<and> (if truthy (entropy_constraint self)
            then \<exists>entropy. output ''entropy'' = Some entropy
                   \<and> cells h r = Some ((criterion predicted label)
                        \<lparr>payload := payload (criterion predicted label)
                                       + alpha self * payload entropy\<rparr>)
            else cells h r = Some (criterion predicted label))"
  using assms
  by (auto simp: run_model_def Let_def alloc_def iadd_def smul_def
      split: option.splits if_splits sum.splits)

text \<open>
  The witness: criterion loss \<open>5 + 1\<close>, \<open>alpha = 2\<close> and entropy \<open>3\<close> give the returned
  loss \<open>12\<close>.
\<close>

theorem run_model_returned_loss_witness:
  "\<exists>out_dict h r.
      run_model \<lparr>entropy_constraint = CBool True, calculate_entropy = CBool False,
                 alpha = 2 :: int, device = CPU, len_epoch = 1\<rparr>
        False [(''label'', \<lparr>payload = 1, dev = CPU\<rparr>)]
        (\<lambda>b. [''predicted'' \<mapsto> \<lparr>payload = 5, dev = CPU\<rparr>,
               ''entropy'' \<mapsto> \<lparr>payload = 3, dev = CPU\<rparr>])
        (\<lambda>p l. \<lparr>payload = payload p + payload l, dev = dev p\<rparr>)
        True \<lparr>cells = Map.empty, fresh = 0\<rparr> = Inr (out_dict, h)
    \<and> out_dict ''loss'' = Some r
    \<and> cells h r = Some \<lparr>payload = 12, dev = CPU\<rparr>"
proof -
  let ?self = "\<lparr>entropy_constraint = CBool True, calculate_entropy = CBool False,
                 alpha = 2 :: int, device = CPU, len_epoch = 1\<rparr>"
  let ?batch = "[(''label'', \<lparr>payload = 1 :: int, dev = CPU\<rparr>)]"
  let ?model = "\<lambda>b :: int batch. [''predicted'' \<mapsto> \<lparr>payload = 5 :: int, dev = CPU\<rparr>,
               ''entropy'' \<mapsto> \<lparr>payload = 3, dev = CPU\<rparr>]"
  let ?crit = "\<lambda>p l :: int tensor. \<lparr>payload = payload p + payload l, dev = dev p\<rparr>"
  let ?h0 = "\<lparr>cells = Map.empty, fresh = 0\<rparr> :: int heap"
  have "\<exists>out_dict h. run_model ?self False ?batch ?model ?crit True ?h0 = Inr (out_dict, h)"
    by (simp add: run_model_def load_batch_data_def Let_def alloc_def iadd_def smul_def)
  then obtain out_dict h where
    run: "run_model ?self False ?batch ?model ?crit True ?h0 = Inr (out_dict, h)"
    by (elim exE)
  from run_model_returned_loss[OF run refl refl]
  obtain r where "out_dict ''loss'' = Some r" "cells h r = Some \<lparr>payload = 12, dev = CPU\<rparr>"
    by (auto simp: load_batch_data_def to_device_def)
  with run show ?thesis by blast
qed

text \<open>
  C7: calculate\_entropy takes the value of entropy\_constraint when the configuration
  has no entry for it; an output run\_model returns holds the model's attention under
  \<open>"attention_weight"\<close> and its entropy under \<open>"entropy"\<close> when calculate\_entropy is
  set, and neither key when it is not.
\<close>

theorem calculate_entropy_default_and_fields:
  "(config ''calculate_entropy'' = None \<longrightarrow>
      calculate_entropy (init_trainer config a d n) = entropy_constraint (init_trainer config a d n))
   \<and> (run_model self is_initialized batch_dict0 model criterion multi_gpu h0 = Inr (out_dict, h) \<longrightarrow>
       (if truthy (calculate_entropy self)
        then \<exists>ra re attention entropy.
               out_dict ''attention_weight'' = Some ra \<and> out_dict ''entropy'' = Some re
             \<and> model (load_batch_data is_initialized batch_dict0 (device self) multi_gpu) ''attention''
                 = Some attention
             \<and> model (load_batch_data is_initialized batch_dict0 (device self) multi_gpu) ''entropy''
                 = Some entropy
             \<and> cells h ra = Some attention \<and> cells h re = Some entropy
        else ''attention_weight'' \<notin> dom out_dict \<and> ''entropy'' \<notin> dom out_dict))"
  by (auto simp: init_trainer_def config_get_def run_model_def Let_def alloc_def iadd_def smul_def
      split: option.splits if_splits sum.splits)

theorem calculate_entropy_default_and_fields_witness:
  "calculate_entropy (init_trainer [''entropy_constraint'' \<mapsto> CBool True] (2 :: int) CPU 1) = CBool True
   \<and> (\<exists>out_dict h ra re.
        run_model (init_trainer [''entropy_constraint'' \<mapsto> CBool True] (2 :: int) CPU 1)
          False [(''label'', \<lparr>payload = 1, dev = CPU\<rparr>)]
          (\<lambda>b. [''predicted'' \<mapsto> \<lparr>payload = 5, dev = CPU\<rparr>,
                 ''attention'' \<mapsto> \<lparr>payload = 7, dev = CPU\<rparr>,
                 ''entropy'' \<mapsto> \<lparr>payload = 3, dev = CPU\<rparr>])
          (\<lambda>p l. \<lparr>payload = payload p + payload l, dev = dev p\<rparr>)
          True \<lparr>cells = Map.empty, fresh = 0\<rparr> = Inr (out_dict, h)
      \<and> out_dict ''attention_weight'' = Some ra \<and> out_dict ''entropy'' = Some re
      \<and> cells h ra = Some \<lparr>payload = 7, dev = CPU\<rparr>
      \<and> cells h re = Some \<lparr>payload = 3, dev = CPU\<rparr>)"
proof -
  let ?config = "[''entropy_constraint'' \<mapsto> CBool True]"
  let ?self = "init_trainer ?config (2 :: int) CPU 1"
  let ?batch = "[(''label'', \<lparr>payload = 1 :: int, dev = CPU\<rparr>)]"
  let ?model = "\<lambda>b :: int batch. [''predicted'' \<mapsto> \<lparr>payload = 5 :: int, dev = CPU\<rparr>,
                 ''attention'' \<mapsto> \<lparr>payload = 7, dev = CPU\<rparr>,
                 ''entropy'' \<mapsto> \<lparr>payload = 3, dev = CPU\<rparr>]"
  let ?crit = "\<lambda>p l :: int tensor. \<lparr>payload = payload p + payload l, dev = dev p\<rparr>"
  let ?h0 = "\<lparr>cells = Map.empty, fresh = 0\<rparr> :: int heap"
  have none: "?config ''calculate_entropy'' = None" by simp
  have ec: "entropy_constraint ?self = CBool True"
    by (simp add: init_trainer_def config_get_def Let_def)
  have "\<exists>out_dict h. run_model ?self False ?batch ?model ?crit True ?h0 = Inr (out_dict, h)"
    by (simp add: run_model_def load_batch_data_def init_trainer_def config_get_def Let_def
        alloc_def iadd_def smul_def)
  then obtain out_dict h where
    run: "run_model ?self False ?batch ?model ?crit True ?h0 = Inr (out_dict, h)"
    by (elim exE)
  note inst = calculate_entropy_default_and_fields[of ?config "2::int" CPU 1 ?self False ?batch ?model ?crit
      True ?h0 out_dict h]
  from inst none ec have ce: "calculate_entropy ?self = CBool True" by simp
  from inst run ce obtain ra re where
    "out_dict ''attention_weight'' = Some ra" "out_dict ''entropy'' = Some re"
    "cells h ra = Some \<lparr>payload = 7, dev = CPU\<rparr>" "cells h re = Some \<lparr>payload = 3, dev = CPU\<rparr>"
    by auto
  with run ce show ?thesis by blast
qed

section \<open>Properties of topic\_evaluation\<close>

text \<open>
  A variant's pass through the loop adds to the result only under one of the three
  membership tests on the configured method.
\<close>

lemma eval_variant_no_method:
  assumes "eval_variant env config word_dict cosine embeddings head_num is_main kd st = Inr st'"
    and "py_in ''fast_eval'' (config_get config ''topic_evaluation_method'' CNone) \<noteq> Inr True"
    and "py_in ''slow_eval'' (config_get config ''topic_evaluation_method'' CNone) \<noteq> Inr True"
    and "py_in ''w2v_sim'' (config_get config ''topic_evaluation_method'' CNone) \<noteq> Inr True"
  shows "topic_result st' = topic_result st"
  using assms
  by (auto simp: eval_variant_def Let_def bind_err_def split: sum.splits if_splits)

lemma eval_variants_no_method:
  assumes "eval_variants env config word_dict cosine embeddings head_num is_main kds st = Inr st'"
    and "py_in ''fast_eval'' (config_get config ''topic_evaluation_method'' CNone) \<noteq> Inr True"
    and "py_in ''slow_eval'' (config_get config ''topic_evaluation_method'' CNone) \<noteq> Inr True"
    and "py_in ''w2v_sim'' (config_get config ''topic_evaluation_method'' CNone) \<noteq> Inr True"
  shows "topic_result st' = topic_result st"
  using assms(1)
proof (induction kds arbitrary: st)
  case Nil
  then show ?case by simp
next
  case (Cons kd kds)
  from Cons.prems obtain st1 where
    s1: "eval_variant env config word_dict cosine embeddings head_num is_main kd st = Inr st1"
    and s2: "eval_variants env config word_dict cosine embeddings head_num is_main kds st1 = Inr st'"
    by (auto simp: bind_err_def split: sum.splits)
  from eval_variant_no_method[OF s1 assms(2-4)] Cons.IH[OF s2] show ?case by simp
qed

lemma eval_variant_unrecognized:
  assumes "py_in ''fast_eval'' (config_get config ''topic_evaluation_method'' CNone) = Inr False"
    and "py_in ''slow_eval'' (config_get config ''topic_evaluation_method'' CNone) = Inr False"
    and "py_in ''w2v_sim'' (config_get config ''topic_evaluation_method'' CNone) = Inr False"
  shows "eval_variant env config word_dict cosine embeddings head_num is_main kd st = Inr st"
  using assms by (simp add: eval_variant_def Let_def bind_err_def)

lemma eval_variants_unrecognized:
  assumes "py_in ''fast_eval'' (config_get config ''topic_evaluation_method'' CNone) = Inr False"
    and "py_in ''slow_eval'' (config_get config ''topic_evaluation_method'' CNone) = Inr False"
    and "py_in ''w2v_sim'' (config_get config ''topic_evaluation_method'' CNone) = Inr False"
  shows "eval_variants env config word_dict cosine embeddings head_num is_main kds st = Inr st"
  by (induction kds) (simp_all add: eval_variant_unrecognized[OF assms] bind_err_def)

text \<open>
  C5: topic\_evaluation never returns an empty report. A report it returns is not
  empty and one of \<open>fast_eval\<close>, \<open>slow_eval\<close>, \<open>w2v_sim\<close> is in the configured method;
  when none of them is, the call raises, and the error is the ValueError of the last
  lines when the method is a string or a list and the variants were built.
\<close>

theorem topic_evaluation_requires_method:
  "(topic_evaluation env config word_dict topic_dist entries cosine embeddings head_num is_main
      = Inr report \<longrightarrow>
      report \<noteq> []
      \<and> (py_in ''fast_eval'' (config_get config ''topic_evaluation_method'' CNone) = Inr True
         \<or> py_in ''slow_eval'' (config_get config ''topic_evaluation_method'' CNone) = Inr True
         \<or> py_in ''w2v_sim'' (config_get config ''topic_evaluation_method'' CNone) = Inr True))
   \<and> (py_in ''fast_eval'' (config_get config ''topic_evaluation_method'' CNone) \<noteq> Inr True
      \<and> py_in ''slow_eval'' (config_get config ''topic_evaluation_method'' CNone) \<noteq> Inr True
      \<and> py_in ''w2v_sim'' (config_get config ''topic_evaluation_method'' CNone) \<noteq> Inr True \<longrightarrow>
      (\<exists>e. topic_evaluation env config word_dict topic_dist entries cosine embeddings head_num is_main
             = Inl e))
   \<and> (py_in ''fast_eval'' (config_get config ''topic_evaluation_method'' CNone) = Inr False
      \<and> py_in ''slow_eval'' (config_get config ''topic_evaluation_method'' CNone) = Inr False
      \<and> py_in ''w2v_sim'' (config_get config ''topic_evaluation_method'' CNone) = Inr False
      \<and> (\<exists>vs. topic_variants config word_dict topic_dist entries = Inr vs) \<longrightarrow>
      topic_evaluation env config word_dict topic_dist entries cosine embeddings head_num is_main
        = Inl ValueError)"
proof -
  let ?tem = "config_get config ''topic_evaluation_method'' CNone"
  let ?run = "topic_evaluation env config word_dict topic_dist entries cosine embeddings head_num is_main"
  have ret: "report \<noteq> [] \<and> (py_in ''fast_eval'' ?tem = Inr True \<or> py_in ''slow_eval'' ?tem = Inr True
         \<or> py_in ''w2v_sim'' ?tem = Inr True)" if r: "?run = Inr report" for report
  proof -
    from r obtain vs st where
      ev: "eval_variants env config word_dict cosine embeddings head_num is_main vs
             \<lparr>topic_scores = None, topic_result = []\<rparr> = Inr st"
      and ne: "topic_result st \<noteq> []" and rep: "report = topic_result st"
      by (auto simp: topic_evaluation_def bind_err_def split: sum.splits if_splits)
    have "py_in ''fast_eval'' ?tem = Inr True \<or> py_in ''slow_eval'' ?tem = Inr True
         \<or> py_in ''w2v_sim'' ?tem = Inr True"
    proof (rule ccontr)
      assume "\<not> ?thesis"
      then have "topic_result st = topic_result \<lparr>topic_scores = None, topic_result = []\<rparr>"
        using eval_variants_no_method[OF ev] by simp
      with ne show False by simp
    qed
    with ne rep show ?thesis by simp
  qed
  have raises: "\<exists>e. ?run = Inl e"
    if "py_in ''fast_eval'' ?tem \<noteq> Inr True \<and> py_in ''slow_eval'' ?tem \<noteq> Inr True
      \<and> py_in ''w2v_sim'' ?tem \<noteq> Inr True"
  proof (cases ?run)
    case (Inl e)
    then show ?thesis by blast
  next
    case (Inr report)
    from ret[OF Inr] that show ?thesis by blast
  qed
  have verr: "?run = Inl ValueError"
    if "py_in ''fast_eval'' ?tem = Inr False \<and> py_in ''slow_eval'' ?tem = Inr False
      \<and> py_in ''w2v_sim'' ?tem = Inr False
      \<and> (\<exists>vs. topic_variants config word_dict topic_dist entries = Inr vs)"
  proof -
    from that obtain vs where vs: "topic_variants config word_dict topic_dist entries = Inr vs"
      by blast
    from that have "eval_variants env config word_dict cosine embeddings head_num is_main vs
             \<lparr>topic_scores = None, topic_result = []\<rparr> = Inr \<lparr>topic_scores = None, topic_result = []\<rparr>"
      by (intro eval_variants_unrecognized) simp_all
    with vs show ?thesis by (simp add: topic_evaluation_def bind_err_def)
  qed
  show ?thesis
    using ret raises verr by (intro conjI impI) blast+
qed

theorem topic_evaluation_requires_method_witness:
  "topic_evaluation
      \<lparr>get_topic_list = (\<lambda>d n r. [[''a'', ''b'']]), compute_npmi = (\<lambda>t n. 0 :: real),
       compute_coherence = (\<lambda>t m n. 0 :: real), save_topic_info = (\<lambda>t s b. []),
       round_mean = Finite, round4 = (\<lambda>x. x)\<rparr>
      [''topic_evaluation_method'' \<mapsto> CList [''none'']]
      [(''a'', 0), (''b'', 1)] \<lparr>vocab_size = 2, weights = [[1 :: real, 2]]\<rparr> []
      (\<lambda>x y. x * y) [1, 2 :: real] 1 True
    = Inl ValueError
   \<and> (\<exists>report. topic_evaluation
      \<lparr>get_topic_list = (\<lambda>d n r. [[''a'', ''b'']]), compute_npmi = (\<lambda>t n. 0 :: real),
       compute_coherence = (\<lambda>t m n. 0 :: real), save_topic_info = (\<lambda>t s b. []),
       round_mean = Finite, round4 = (\<lambda>x. x)\<rparr>
      [''topic_evaluation_method'' \<mapsto> CStr ''w2v_sim'', ''top_n'' \<mapsto> CInt 2]
      [(''a'', 0), (''b'', 1)] \<lparr>vocab_size = 2, weights = [[1 :: real, 2]]\<rparr> []
      (\<lambda>x y. x * y) [1, 2 :: real] 1 True
    = Inr report \<and> report \<noteq> [])"
proof -
  let ?env = "\<lparr>get_topic_list = (\<lambda>d n r. [[''a'', ''b'']]), compute_npmi = (\<lambda>t n. 0 :: real),
       compute_coherence = (\<lambda>t m n. 0 :: real), save_topic_info = (\<lambda>t s b. []),
       round_mean = Finite, round4 = (\<lambda>x. x)\<rparr>
       :: (real, real, np_float) collaborators"
  let ?c1 = "[''topic_evaluation_method'' \<mapsto> CList [''none'']]"
  let ?c2 = "[''topic_evaluation_method'' \<mapsto> CStr ''w2v_sim'', ''top_n'' \<mapsto> CInt 2]"
  let ?wd = "[(''a'', 0 :: nat), (''b'', 1)]"
  let ?td = "\<lparr>vocab_size = 2, weights = [[1 :: real, 2]]\<rparr>"
  let ?cos = "\<lambda>x y :: real. x * y"
  have none: "py_in ''fast_eval'' (config_get ?c1 ''topic_evaluation_method'' CNone) = Inr False
      \<and> py_in ''slow_eval'' (config_get ?c1 ''topic_evaluation_method'' CNone) = Inr False
      \<and> py_in ''w2v_sim'' (config_get ?c1 ''topic_evaluation_method'' CNone) = Inr False
      \<and> (\<exists>vs. topic_variants ?c1 ?wd ?td [] = Inr vs)"
    by (simp add: config_get_def topic_variants_def)
  have a: "topic_evaluation ?env ?c1 ?wd ?td [] ?cos [1, 2] 1 True = Inl ValueError"
    using topic_evaluation_requires_method[of ?env ?c1 ?wd ?td "[]" ?cos "[1, 2]" 1 True] none
    by blast
  have "\<exists>report. topic_evaluation ?env ?c2 ?wd ?td [] ?cos [1, 2] 1 True = Inr report"
    by (simp add: topic_evaluation_def topic_variants_def config_get_def bind_err_def resolve_def
        initial_store_def eval_variant_def w2v_sim_def lookup_word_def take_rows_def
        cosine_similarity_def triu_def np_sum_def dict_update_def Let_def enumerate_eq_zip)
  then obtain report where
    r: "topic_evaluation ?env ?c2 ?wd ?td [] ?cos [1, 2] 1 True = Inr report"
    by (elim exE)
  with topic_evaluation_requires_method[of ?env ?c2 ?wd ?td "[]" ?cos "[1, 2]" 1 True report]
  have "report \<noteq> []" by blast
  with a r show ?thesis by blast
qed

section \<open>Properties of the variants of the topic distribution\<close>

text \<open>
  The slice assignment zeroes, in every row, the weights the specification names; one
  pass of the loop allocates one array and writes only into it.
\<close>

lemma length_fold_zero [simp]:
  "length (fold (\<lambda>i row. row[i := 0]) idxs row) = length row"
  by (induction idxs arbitrary: row) simp_all

lemma nth_fold_zero:
  "j < length row \<Longrightarrow>
   fold (\<lambda>i row. row[i := 0]) idxs row ! j = (if j \<in> set idxs then 0 else row ! j)"
  by (induction idxs arbitrary: row) (auto simp: nth_list_update)

lemma fold_zero_eq:
  "fold (\<lambda>i row. row[i := 0]) idxs row
     = map (\<lambda>(i, x). if i \<in> set idxs then 0 else x) (enumerate 0 row)"
  by (rule nth_equalityI) (simp_all add: nth_fold_zero nth_enumerate_eq)

lemma removed_index_iff:
  "list_ex (\<lambda>(w, v). v = i \<and> w \<notin> set whitelist) word_dict
     \<longleftrightarrow> i \<in> set (map snd (filter (\<lambda>(k, v). k \<notin> set whitelist) word_dict))"
  by (force simp: list_ex_iff)

lemma zeroed_is_spec_filtered:
  "a\<lparr>weights := map (\<lambda>row. fold (\<lambda>i row. row[i := 0])
        (map snd (filter (\<lambda>(k, v). k \<notin> set whitelist) word_dict)) row) (weights a)\<rparr>
     = spec_filtered word_dict whitelist a"
  unfolding spec_filtered_def fold_zero_eq removed_index_iff ..

lemma variant_step:
  assumes "zero_columns (fst (deepcopy r st)) removed (snd (deepcopy r st)) = Inr st2"
  shows "next_id st2 = Suc (next_id st)"
    and "q \<noteq> next_id st \<Longrightarrow> arrays st2 q = arrays st q"
    and "arrays st2 (next_id st) =
          (arrays st r)\<lparr>weights := map (\<lambda>row. fold (\<lambda>i row. row[i := 0]) removed row)
                                      (weights (arrays st r))\<rparr>"
  using assms
  by (auto simp: zero_columns_def deepcopy_def Let_def split: if_splits)


lemma build_variants_inv:
  assumes "build_variants wd r entries (st, tds) = Inr (st', tds')" and "r < next_id st"
  shows "next_id st \<le> next_id st'
     \<and> (\<forall>q < next_id st. arrays st' q = arrays st q)
     \<and> (\<forall>key q. map_of tds' key = Some q \<longrightarrow>
          (map_of tds key = Some q
             \<and> (\<forall>e \<in> set entries. endswith (fst e) ''.json'' \<longrightarrow>
                    str_replace ''.json'' [] (fst e) \<noteq> key))
        \<or> (next_id st \<le> q
             \<and> (\<exists>e \<in> set entries. endswith (fst e) ''.json''
                    \<and> key = str_replace ''.json'' [] (fst e)
                    \<and> arrays st' q = spec_filtered wd (snd e) (arrays st r))))"
  using assms
proof (induction entries arbitrary: st tds)
  case Nil
  then show ?case by simp
next
  case (Cons e entries)
  obtain name ws where e: "e = (name, ws)" by (cases e)
  show ?case
  proof (cases "endswith name ''.json''")
    case False
    with Cons.prems(1) e have "build_variants wd r entries (st, tds) = Inr (st', tds')"
      by simp
    from Cons.IH[OF this Cons.prems(2)] False e show ?thesis
      by auto
  next
    case True
    let ?c = "next_id st"
    let ?removed = "map snd (filter (\<lambda>(k, v). k \<notin> set ws) wd)"
    let ?key = "str_replace ''.json'' [] name"
    have fst_dc: "fst (deepcopy r st) = ?c" by (simp add: deepcopy_def)
    from Cons.prems(1) e True obtain st2 where
      zc: "zero_columns (fst (deepcopy r st)) ?removed (snd (deepcopy r st)) = Inr st2"
      and rest: "build_variants wd r entries (st2, AList.update ?key ?c tds) = Inr (st', tds')"
      by (auto simp: Let_def case_prod_unfold fst_dc split: sum.splits)
    note step = variant_step[OF zc]
    have r2: "r < next_id st2" using step(1) Cons.prems(2) by simp
    have old: "arrays st2 q = arrays st q" if "q < ?c" for q
      using step(2)[of q] that by simp
    have new: "arrays st2 ?c = spec_filtered wd ws (arrays st r)"
      using step(3) by (simp add: zeroed_is_spec_filtered)
    from Cons.IH[OF rest r2] have
      ih1: "next_id st2 \<le> next_id st'"
      and ih2: "\<And>q. q < next_id st2 \<Longrightarrow> arrays st' q = arrays st2 q"
      and ih3: "\<And>key q. map_of tds' key = Some q \<Longrightarrow>
          (map_of (AList.update ?key ?c tds) key = Some q
             \<and> (\<forall>e \<in> set entries. endswith (fst e) ''.json'' \<longrightarrow>
                    str_replace ''.json'' [] (fst e) \<noteq> key))
        \<or> (next_id st2 \<le> q
             \<and> (\<exists>e \<in> set entries. endswith (fst e) ''.json''
                    \<and> key = str_replace ''.json'' [] (fst e)
                    \<and> arrays st' q = spec_filtered wd (snd e) (arrays st2 r)))"
      by blast+
    have p1: "?c \<le> next_id st'" using ih1 step(1) by simp
    have p2: "arrays st' q = arrays st q" if "q < ?c" for q
      using ih2[of q] old[OF that] that step(1) by simp
    have at_c: "arrays st' ?c = spec_filtered wd ws (arrays st r)"
      using ih2[of ?c] new step(1) by simp
    have r_same: "arrays st2 r = arrays st r" using old[OF Cons.prems(2)] .
    have p3: "(map_of tds key = Some q
             \<and> (\<forall>e \<in> set (e # entries). endswith (fst e) ''.json'' \<longrightarrow>
                    str_replace ''.json'' [] (fst e) \<noteq> key))
        \<or> (?c \<le> q
             \<and> (\<exists>e \<in> set (e # entries). endswith (fst e) ''.json''
                    \<and> key = str_replace ''.json'' [] (fst e)
                    \<and> arrays st' q = spec_filtered wd (snd e) (arrays st r)))"
      if look: "map_of tds' key = Some q" for key q
    proof -
      from ih3[OF look] consider
        (kept) "map_of (AList.update ?key ?c tds) key = Some q"
          "\<forall>e \<in> set entries. endswith (fst e) ''.json'' \<longrightarrow> str_replace ''.json'' [] (fst e) \<noteq> key"
        | (later) "next_id st2 \<le> q"
          "\<exists>e \<in> set entries. endswith (fst e) ''.json'' \<and> key = str_replace ''.json'' [] (fst e)
              \<and> arrays st' q = spec_filtered wd (snd e) (arrays st2 r)"
        by blast
      then show ?thesis
      proof cases
        case kept
        show ?thesis
        proof (cases "key = ?key")
          case True
          with kept(1) have "q = ?c" by (simp add: update_conv')
          with True at_c e \<open>endswith name ''.json''\<close> show ?thesis by auto
        next
          case False
          with kept(1) have "map_of tds key = Some q" by (simp add: update_conv')
          with False kept(2) e show ?thesis by auto
        qed
      next
        case later
        from later(1) step(1) have "?c \<le> q" by simp
        with later(2) r_same show ?thesis by auto
      qed
    qed
    from p1 p2 p3 show ?thesis by blast
  qed
qed

lemma build_variants_keeps:
  assumes "build_variants wd r entries (st, tds) = Inr (st', tds')"
    and "\<forall>e \<in> set entries. endswith (fst e) ''.json'' \<longrightarrow> str_replace ''.json'' [] (fst e) \<noteq> key"
  shows "map_of tds' key = map_of tds key"
  using assms
proof (induction entries arbitrary: st tds)
  case Nil
  then show ?case by simp
next
  case (Cons e entries)
  obtain name ws where e: "e = (name, ws)" by (cases e)
  from Cons.prems(2) have later:
    "\<forall>e \<in> set entries. endswith (fst e) ''.json'' \<longrightarrow> str_replace ''.json'' [] (fst e) \<noteq> key"
    by simp
  show ?case
  proof (cases "endswith name ''.json''")
    case False
    with Cons.prems(1) e have "build_variants wd r entries (st, tds) = Inr (st', tds')"
      by simp
    from Cons.IH[OF this later] show ?thesis .
  next
    case True
    let ?key = "str_replace ''.json'' [] name"
    from Cons.prems(1) e True obtain st2 where
      rest: "build_variants wd r entries (st2, AList.update ?key (next_id st) tds) = Inr (st', tds')"
      by (auto simp: Let_def case_prod_unfold deepcopy_def split: sum.splits)
    from True Cons.prems(2) e have "?key \<noteq> key" by simp
    with Cons.IH[OF rest later] show ?thesis by (simp add: update_conv')
  qed
qed

lemma map_of_resolve:
  "map_of (resolve (st, tds)) key = map_option (arrays st) (map_of tds key)"
  by (induction tds) (auto simp: resolve_def)

text \<open>
  A whitelist file named \<open>original.json\<close> gives the variant name \<open>original\<close>: its
  filtered copy replaces the entry of the unfiltered distribution in \<open>topic_dists\<close>,
  and the variant \<open>original\<close> that is evaluated is the filtered one.
\<close>

theorem original_variant_overwritten_counterexample:
  "topic_variants [''post_word_dict_dir'' \<mapsto> CStr ''filters''] [(''a'', 0)]
      \<lparr>vocab_size = 1, weights = [[1 :: real]]\<rparr> [(''original.json'', [])]
     = Inr [(''original'', \<lparr>vocab_size = 1, weights = [[0]]\<rparr>)]
   \<and> topic_variants [''post_word_dict_dir'' \<mapsto> CStr ''filters''] [(''a'', 0)]
      \<lparr>vocab_size = 1, weights = [[1 :: real]]\<rparr> []
     = Inr [(''original'', \<lparr>vocab_size = 1, weights = [[1]]\<rparr>)]"
  by (simp add: topic_variants_def config_get_def bind_err_def resolve_def initial_store_def
      deepcopy_def zero_columns_def endswith_def Let_def)

text \<open>
  C4: after the loop over the whitelist files, the array of the original distribution
  is what it was; every other array \<open>topic_dists\<close> refers to is the distribution with
  the weight of every vocabulary index whose word is not in the file's whitelist set
  to zero; and when no file's variant name is \<open>original\<close>, the variant \<open>original\<close> is
  the unfiltered distribution, so what is extracted from it does not depend on the
  filtered variants.
\<close>

theorem filtered_variants_on_copy:
  assumes "build_variants word_dict 0 entries (initial_store topic_dist, [(''original'', 0)])
             = Inr (st, topic_dists)"
  shows "arrays st 0 = topic_dist
     \<and> (\<forall>key q. map_of topic_dists key = Some q \<and> q \<noteq> 0 \<longrightarrow>
          (\<exists>e \<in> set entries. endswith (fst e) ''.json''
              \<and> key = str_replace ''.json'' [] (fst e)
              \<and> arrays st q = spec_filtered word_dict (snd e) topic_dist))
     \<and> ((\<forall>e \<in> set entries. endswith (fst e) ''.json'' \<longrightarrow>
             str_replace ''.json'' [] (fst e) \<noteq> ''original'') \<longrightarrow>
          map_of (resolve (st, topic_dists)) ''original'' = Some topic_dist)"
proof -
  let ?st0 = "initial_store topic_dist"
  have alloc0: "0 < next_id ?st0" and at0: "arrays ?st0 0 = topic_dist"
    by (simp_all add: initial_store_def)
  note inv = build_variants_inv[OF assms alloc0]
  have frame: "arrays st 0 = topic_dist"
    using inv alloc0 at0 by simp
  have filtered: "\<exists>e \<in> set entries. endswith (fst e) ''.json''
              \<and> key = str_replace ''.json'' [] (fst e)
              \<and> arrays st q = spec_filtered word_dict (snd e) topic_dist"
    if "map_of topic_dists key = Some q \<and> q \<noteq> 0" for key q
  proof -
    from that inv have
      "(map_of [(''original'', 0 :: nat)] key = Some q
        \<and> (\<forall>e \<in> set entries. endswith (fst e) ''.json'' \<longrightarrow> str_replace ''.json'' [] (fst e) \<noteq> key))
       \<or> (next_id ?st0 \<le> q
           \<and> (\<exists>e \<in> set entries. endswith (fst e) ''.json'' \<and> key = str_replace ''.json'' [] (fst e)
                  \<and> arrays st q = spec_filtered word_dict (snd e) (arrays ?st0 0)))"
      by blast
    with that at0 show ?thesis by (auto split: if_splits)
  qed
  have orig: "map_of (resolve (st, topic_dists)) ''original'' = Some topic_dist"
    if "\<forall>e \<in> set entries. endswith (fst e) ''.json'' \<longrightarrow>
             str_replace ''.json'' [] (fst e) \<noteq> ''original''"
  proof -
    from build_variants_keeps[OF assms that]
    have "map_of topic_dists ''original'' = Some 0" by simp
    with frame show ?thesis by (simp add: map_of_resolve)
  qed
  from frame filtered orig show ?thesis by blast
qed

theorem filtered_variants_on_copy_witness:
  "\<exists>st topic_dists q.
      build_variants [(''a'', 0), (''b'', 1)] 0 [(''x.json'', [''b''])]
        (initial_store \<lparr>vocab_size = 2, weights = [[1 :: real, 2], [3, 4]]\<rparr>, [(''original'', 0)])
        = Inr (st, topic_dists)
    \<and> arrays st 0 = \<lparr>vocab_size = 2, weights = [[1, 2], [3, 4]]\<rparr>
    \<and> map_of (resolve (st, topic_dists)) ''original''
        = Some \<lparr>vocab_size = 2, weights = [[1, 2], [3, 4]]\<rparr>
    \<and> map_of topic_dists ''x'' = Some q
    \<and> arrays st q = \<lparr>vocab_size = 2, weights = [[0, 2], [0, 4]]\<rparr>"
proof -
  let ?wd = "[(''a'', 0 :: nat), (''b'', 1)]"
  let ?td = "\<lparr>vocab_size = 2, weights = [[1 :: real, 2], [3, 4]]\<rparr>"
  let ?entries = "[(''x.json'', [''b''])]"
  have "\<exists>st topic_dists. build_variants ?wd 0 ?entries (initial_store ?td, [(''original'', 0)])
          = Inr (st, topic_dists) \<and> map_of topic_dists ''x'' = Some 1"
    by (simp add: initial_store_def deepcopy_def zero_columns_def endswith_def Let_def)
  then obtain st topic_dists where
    run: "build_variants ?wd 0 ?entries (initial_store ?td, [(''original'', 0)]) = Inr (st, topic_dists)"
    and x: "map_of topic_dists ''x'' = Some 1"
    by blast
  note thm1 = filtered_variants_on_copy[OF run]
  have nocol: "\<forall>e \<in> set ?entries. endswith (fst e) ''.json'' \<longrightarrow>
             str_replace ''.json'' [] (fst e) \<noteq> ''original''"
    by simp
  from thm1 have frame: "arrays st 0 = ?td" by blast
  from thm1 nocol have orig: "map_of (resolve (st, topic_dists)) ''original'' = Some ?td"
    by blast
  from thm1 x have "\<exists>e \<in> set ?entries. endswith (fst e) ''.json''
              \<and> ''x'' = str_replace ''.json'' [] (fst e)
              \<and> arrays st 1 = spec_filtered ?wd (snd e) ?td"
    by (metis One_nat_def n_not_Suc_n)
  then have filt: "arrays st 1 = \<lparr>vocab_size = 2, weights = [[0, 2], [0, 4]]\<rparr>"
    by (simp add: spec_filtered_def enumerate_eq_zip)
  from run frame orig x filt show ?thesis by blast
qed

section \<open>Properties of the embedding similarity\<close>

text \<open>
  The sum of the matrix \<open>triu(cosine_similarity(X), 1)\<close> is the sum of the cosines of
  the pairs \<open>i < j\<close> of rows of \<open>X\<close>.
\<close>

lemma bind_err_Inr: "bind_err (Inr x) f = f x"
  by (simp add: bind_err_def)

lemma traverse_Inr:
  "(\<And>x. x \<in> set xs \<Longrightarrow> f x = Inr (g x)) \<Longrightarrow> traverse f xs = Inr (map g xs)"
  by (induction xs) (simp_all add: bind_err_def)

lemma triangle_sum:
  fixes c :: "nat \<Rightarrow> nat \<Rightarrow> real"
  shows "(\<Sum>i<n. \<Sum>j<n. if i < j then c i j else 0) = (\<Sum>j<n. \<Sum>i<j. c i j)"
proof -
  have "(\<Sum>i<n. \<Sum>j<n. if i < j then c i j else 0) = (\<Sum>j<n. \<Sum>i<n. if i < j then c i j else 0)"
    by (rule sum.swap)
  also have "\<dots> = (\<Sum>j<n. \<Sum>i<j. c i j)"
  proof (rule sum.cong[OF refl])
    fix j assume "j \<in> {..<n}"
    then have sub: "{..<j} \<subseteq> {..<n}" by auto
    have "(\<Sum>i<n. if i < j then c i j else 0) = (\<Sum>i\<in>{..<n} \<inter> {i. i < j}. c i j)"
      by (simp add: sum.inter_restrict)
    also have "{..<n} \<inter> {i. i < j} = {..<j}" using sub by auto
    finally show "(\<Sum>i<n. if i < j then c i j else 0) = (\<Sum>i<j. c i j)" .
  qed
  finally show ?thesis .
qed

lemma sum_list_map_nth:
  fixes f :: "'a \<Rightarrow> real"
  shows "sum_list (map f xs) = (\<Sum>i<length xs. f (xs ! i))"
  by (simp add: sum_list_sum_nth atLeast0LessThan)

lemma np_sum_triu_cosine:
  "np_sum (triu (map (\<lambda>x. map (cosine x) X) X) 1)
     = (\<Sum>j<length X. \<Sum>i<j. cosine (X ! i) (X ! j))"
proof -
  let ?n = "length X"
  let ?m = "map (\<lambda>x. map (cosine x) X) X"
  have len: "length (triu ?m 1) = ?n" by (simp add: triu_def)
  have row: "sum_list (triu ?m 1 ! i) = (\<Sum>j<?n. if i < j then cosine (X ! i) (X ! j) else 0)"
    if "i < ?n" for i
  proof -
    have r: "triu ?m 1 ! i = map (\<lambda>j. if i < j then cosine (X ! i) (X ! j) else 0) [0..<?n]"
      using that by (auto simp: triu_def nth_enumerate_eq enumerate_eq_zip intro!: nth_equalityI)
    show ?thesis unfolding r by (simp add: interv_sum_list_conv_sum_set_nat atLeast0LessThan)
  qed
  have "np_sum (triu ?m 1) = (\<Sum>i<?n. sum_list (triu ?m 1 ! i))"
    unfolding np_sum_def sum_list_map_nth len ..
  also have "\<dots> = (\<Sum>i<?n. \<Sum>j<?n. if i < j then cosine (X ! i) (X ! j) else 0)"
    by (rule sum.cong[OF refl], rule row) simp
  also have "\<dots> = (\<Sum>j<?n. \<Sum>i<j. cosine (X ! i) (X ! j))"
    by (rule triangle_sum)
  finally show ?thesis .
qed

lemma topic_triu_sum:
  assumes "topic \<noteq> []"
    and "\<forall>word \<in> set topic. \<exists>v. map_of word_dict word = Some v \<and> v < length embeddings"
  shows "bind_err (take_rows embeddings (map (\<lambda>w. the (map_of word_dict w)) topic)) (\<lambda>X.
           bind_err (cosine_similarity cosine X) (\<lambda>m. Inr (np_sum (triu m 1))))
         = Inr (\<Sum>j<length topic. \<Sum>i<j. cosine (word_vector embeddings word_dict (topic ! i))
                                             (word_vector embeddings word_dict (topic ! j)))"
proof -
  let ?X = "map (word_vector embeddings word_dict) topic"
  have "take_rows embeddings (map (\<lambda>w. the (map_of word_dict w)) topic)
          = Inr (map (\<lambda>j. embeddings ! j) (map (\<lambda>w. the (map_of word_dict w)) topic))"
    unfolding take_rows_def
    by (rule traverse_Inr) (use assms(2) in auto)
  also have "map (\<lambda>j. embeddings ! j) (map (\<lambda>w. the (map_of word_dict w)) topic) = ?X"
    by (simp add: word_vector_def)
  finally have rows: "take_rows embeddings (map (\<lambda>w. the (map_of word_dict w)) topic) = Inr ?X" .
  have ne: "?X \<noteq> []" using assms(1) by simp
  have eq: "(\<Sum>j<length ?X. \<Sum>i<j. cosine (?X ! i) (?X ! j))
      = (\<Sum>j<length topic. \<Sum>i<j. cosine (word_vector embeddings word_dict (topic ! i))
                                             (word_vector embeddings word_dict (topic ! j)))"
    by (intro sum.cong refl) simp_all
  have "bind_err (take_rows embeddings (map (\<lambda>w. the (map_of word_dict w)) topic)) (\<lambda>X.
           bind_err (cosine_similarity cosine X) (\<lambda>m. Inr (np_sum (triu m 1))))
        = Inr (np_sum (triu (map (\<lambda>x. map (cosine x) ?X) ?X) 1))"
    unfolding rows using ne by (simp add: bind_err_def cosine_similarity_def del: One_nat_def)
  also have "\<dots> = Inr (\<Sum>j<length ?X. \<Sum>i<j. cosine (?X ! i) (?X ! j))"
    by (simp only: np_sum_triu_cosine)
  finally show ?thesis by (simp only: eq)
qed

text \<open>
  C8: for topics whose words are in the dictionary with indices inside the embedding
  matrix, and a nonzero \<open>head_num * top_n * (top_n - 1)\<close>, the embedding-similarity
  score is the sum over the topics of the cosines of the pairs \<open>i < j\<close> of each topic's
  word vectors, divided by \<open>head_num * top_n * (top_n - 1) / 2\<close>, where \<open>head_num\<close>, the
  number of heads of the model, is its number of topics.
\<close>

theorem w2v_sim_formula:
  assumes "\<forall>topic \<in> set topic_list. topic \<noteq> []
             \<and> (\<forall>word \<in> set topic. \<exists>v. map_of word_dict word = Some v \<and> v < length embeddings)"
    and "head_num \<noteq> 0" and "n \<noteq> 0" and "n \<noteq> 1"
  shows "w2v_sim cosine embeddings head_num (CInt n) word_dict topic_list =
     Inr (Finite ((\<Sum>topic\<leftarrow>topic_list. \<Sum>j<length topic. \<Sum>i<j.
                      cosine (word_vector embeddings word_dict (topic ! i))
                             (word_vector embeddings word_dict (topic ! j)))
                  / (of_int head_num * of_int n * (of_int n - 1) / 2)))"
proof -
  let ?idx = "map (\<lambda>w. the (map_of word_dict w))"
  let ?g = "\<lambda>topic. \<Sum>j<length topic. \<Sum>i<j.
              cosine (word_vector embeddings word_dict (topic ! i))
                     (word_vector embeddings word_dict (topic ! j))"
  let ?count = "of_int head_num * of_int n * (of_int n - 1) / 2 :: real"
  have count: "?count \<noteq> 0" using assms(2-4) by simp
  have index: "traverse (traverse (lookup_word word_dict)) topic_list = Inr (map ?idx topic_list)"
  proof (rule traverse_Inr)
    fix topic assume "topic \<in> set topic_list"
    with assms(1) have "\<forall>word \<in> set topic. \<exists>v. map_of word_dict word = Some v" by blast
    then show "traverse (lookup_word word_dict) topic = Inr (?idx topic)"
      by (intro traverse_Inr) (auto simp: lookup_word_def)
  qed
  have totals: "traverse (\<lambda>i. bind_err (take_rows embeddings i) (\<lambda>X.
                   bind_err (cosine_similarity cosine X) (\<lambda>m. Inr (np_sum (triu m 1)))))
                 (map ?idx topic_list) = Inr (map ?g topic_list)"
  proof -
    have "traverse (\<lambda>i. bind_err (take_rows embeddings i) (\<lambda>X.
                   bind_err (cosine_similarity cosine X) (\<lambda>m. Inr (np_sum (triu m 1)))))
                 (map ?idx topic_list)
          = traverse (\<lambda>topic. bind_err (take_rows embeddings (?idx topic)) (\<lambda>X.
                   bind_err (cosine_similarity cosine X) (\<lambda>m. Inr (np_sum (triu m 1)))))
                 topic_list"
      by (induction topic_list) simp_all
    also have "\<dots> = Inr (map ?g topic_list)"
    proof (rule traverse_Inr)
      fix topic assume "topic \<in> set topic_list"
      with assms(1) have a: "topic \<noteq> []"
        and b: "\<forall>word \<in> set topic. \<exists>v. map_of word_dict word = Some v \<and> v < length embeddings"
        by blast+
      show "bind_err (take_rows embeddings (?idx topic)) (\<lambda>X.
                   bind_err (cosine_similarity cosine X) (\<lambda>m. Inr (np_sum (triu m 1))))
            = Inr (?g topic)"
        by (rule topic_triu_sum[OF a b])
    qed
    finally show ?thesis .
  qed
  have "w2v_sim cosine embeddings head_num (CInt n) word_dict topic_list
          = (if ?count = 0
             then (if map ?g topic_list = [] then Inl ZeroDivisionError else Inr NonFinite)
             else Inr (Finite (sum_list (map ?g topic_list) / ?count)))"
    by (simp only: w2v_sim_def Let_def num_of.simps index totals bind_err_Inr)
  with count show ?thesis by (simp only: if_False)
qed

text \<open>
  The witness: two topics of two words each over the one-dimensional embeddings
  \<open>1, 2, 3\<close> with the product as cosine give \<open>(1 * 2 + 2 * 3) / 2 = 4\<close>.
\<close>

theorem w2v_sim_formula_witness:
  "w2v_sim (\<lambda>x y. x * y) [1, 2, 3 :: real] 2 (CInt 2)
     [(''a'', 0), (''b'', 1), (''c'', 2)] [[''a'', ''b''], [''b'', ''c'']] = Inr (Finite 4)"
proof -
  let ?wd = "[(''a'', 0 :: nat), (''b'', 1), (''c'', 2)]"
  let ?tl = "[[''a'', ''b''], [''b'', ''c'']]"
  let ?E = "[1, 2, 3 :: real]"
  have wf: "\<forall>topic \<in> set ?tl. topic \<noteq> []
             \<and> (\<forall>word \<in> set topic. \<exists>v. map_of ?wd word = Some v \<and> v < length ?E)"
    by simp
  have "w2v_sim (\<lambda>x y. x * y) ?E 2 (CInt 2) ?wd ?tl =
     Inr (Finite ((\<Sum>topic\<leftarrow>?tl. \<Sum>j<length topic. \<Sum>i<j.
                      (word_vector ?E ?wd (topic ! i)) * (word_vector ?E ?wd (topic ! j)))
                  / (of_int 2 * of_int 2 * (of_int 2 - 1) / 2)))"
    by (rule w2v_sim_formula[OF wf]) simp_all
  also have "(\<Sum>topic\<leftarrow>?tl. \<Sum>j<length topic. \<Sum>i<j.
                      (word_vector ?E ?wd (topic ! i)) * (word_vector ?E ?wd (topic ! j))) = 8"
    by (simp add: word_vector_def numeral_2_eq_2 lessThan_Suc)
  finally show ?thesis by simp
qed

end
